theory Spec2Isabelle
  imports Complex_Main
begin

section \<open>The snake game of App.tsx and the account access of storage.ts\<close>

text \<open>
  The React component \<^verbatim>\<open>App\<close> keeps the game in \<^verbatim>\<open>useState\<close> cells and one
  \<^verbatim>\<open>useRef\<close> cell. The model collects them in one record; every handler of the component
  becomes a function from the record to the record it leaves behind. JavaScript numbers
  that only ever hold integers (coordinates, score, speed) are \<open>int\<close>; time stamps and the
  results of \<^verbatim>\<open>Math.random()\<close> are \<open>real\<close> (double rounding is not modelled).

  The state updates of one handler take effect together, in the render that follows it.
  The key and button handlers are made anew in every render that changes what they read,
  so they read the cells as they are. \<^verbatim>\<open>moveSnake\<close> is kept by \<^verbatim>\<open>useCallback\<close> until
  \<^verbatim>\<open>direction\<close>, \<^verbatim>\<open>food\<close>, \<^verbatim>\<open>isPaused\<close> or \<^verbatim>\<open>isGameOver\<close> changes: it reads these four as
  they are, but \<^verbatim>\<open>score\<close> and \<^verbatim>\<open>currentUser\<close>, which its dependency list leaves out, as
  they were in the render that made it.
\<close>

subsection \<open>Constants and data\<close>

definition GRID_SIZE :: int where
  "GRID_SIZE = 20"

definition BASE_SPEED :: int where
  "BASE_SPEED = 150"

definition SPEED_INCREMENT :: int where
  "SPEED_INCREMENT = 2"

record Point =
  x :: int
  y :: int

definition INITIAL_SNAKE :: "Point list" where
  "INITIAL_SNAKE = [\<lparr>x = 10, y = 10\<rparr>, \<lparr>x = 10, y = 11\<rparr>, \<lparr>x = 10, y = 12\<rparr>]"

definition INITIAL_DIRECTION :: Point where
  "INITIAL_DIRECTION = \<lparr>x = 0, y = - 1\<rparr>"

record UserToken =
  username :: string

text \<open>
  The fields of \<open>GameState\<close> are the state cells of \<^verbatim>\<open>App\<close> that the game logic reads or
  writes. \<open>lastUpdateTime\<close> is \<^verbatim>\<open>lastUpdateTimeRef.current\<close>. Two fields record the
  effects on the outside world: \<open>draws\<close> counts the calls of \<^verbatim>\<open>Math.random()\<close> made so
  far, and \<open>saved\<close> lists the calls of \<^verbatim>\<open>saveScore(username, score)\<close> in the order
  they were made. \<open>capturedUser\<close> and \<open>capturedScore\<close> are the values of \<^verbatim>\<open>currentUser\<close>
  and \<^verbatim>\<open>score\<close> that the \<^verbatim>\<open>moveSnake\<close> callback now in use holds in its closure.
\<close>

record GameState =
  currentUser :: "UserToken option"
  snake :: "Point list"
  food :: Point
  direction :: Point
  isGameOver :: bool
  isPaused :: bool
  score :: int
  speed :: int
  lastUpdateTime :: real
  draws :: nat
  saved :: "(string \<times> int) list"
  capturedUser :: "UserToken option"
  capturedScore :: int

text \<open>
  A handler either returns, or throws the \<^verbatim>\<open>TypeError\<close> of reading a field of
  \<^verbatim>\<open>undefined\<close>, or never returns.
\<close>

datatype 'a outcome = Returns 'a | TypeError | Diverges

subsection \<open>generateFood\<close>

text \<open>
  The source of random numbers is a parameter: \<open>rnd i\<close> is the result of the \<open>i\<close>-th call of
  \<^verbatim>\<open>Math.random()\<close>. One round of the loop makes two calls, for \<^verbatim>\<open>x\<close> and then for
  \<^verbatim>\<open>y\<close>. The loop has no bound in the source, so the function is partial: \<open>None\<close> is
  the run that never leaves the loop. The result carries the number of calls made.
\<close>

partial_function (option) generateFood ::
  "(nat \<Rightarrow> real) \<Rightarrow> nat \<Rightarrow> Point list \<Rightarrow> (Point \<times> nat) option" where
  "generateFood rnd d currentSnake =
     (let newFood = \<lparr>x = \<lfloor>rnd d * of_int GRID_SIZE\<rfloor>, y = \<lfloor>rnd (d + 1) * of_int GRID_SIZE\<rfloor>\<rparr>;
          isOnSnake = list_ex (\<lambda>segment. x segment = x newFood \<and> y segment = y newFood) currentSnake
      in if \<not> isOnSnake then Some (newFood, d + 2) else generateFood rnd (d + 2) currentSnake)"

subsection \<open>resetGame and moveSnake\<close>

definition resetGame :: "(nat \<Rightarrow> real) \<Rightarrow> GameState \<Rightarrow> GameState outcome" where
  "resetGame rnd s =
     (case generateFood rnd (draws s) INITIAL_SNAKE of
        None \<Rightarrow> Diverges
      | Some (newFood, d) \<Rightarrow>
          Returns (s\<lparr>snake := INITIAL_SNAKE, direction := INITIAL_DIRECTION, score := 0,
                     isGameOver := False, isPaused := False, speed := BASE_SPEED,
                     food := newFood, draws := d\<rparr>))"

text \<open>
  The two collision branches of \<^verbatim>\<open>moveSnake\<close> have the same body. The \<^verbatim>\<open>currentUser\<close> and
  \<^verbatim>\<open>score\<close> it names are those of the closure.
\<close>

definition gameOverNow :: "GameState \<Rightarrow> GameState" where
  "gameOverNow s =
     s\<lparr>isGameOver := True,
       saved := (case capturedUser s of
                   None \<Rightarrow> saved s
                 | Some u \<Rightarrow> saved s @ [(username u, capturedScore s)])\<rparr>"

definition moveSnake :: "(nat \<Rightarrow> real) \<Rightarrow> GameState \<Rightarrow> GameState outcome" where
  "moveSnake rnd s =
     (if isPaused s \<or> isGameOver s then Returns s
      else case snake s of
        [] \<Rightarrow> TypeError
      | head # _ \<Rightarrow>
          (let newHead = \<lparr>x = x head + x (direction s), y = y head + y (direction s)\<rparr>
           in if x newHead < 0 \<or> x newHead \<ge> GRID_SIZE \<or> y newHead < 0 \<or> y newHead \<ge> GRID_SIZE
              then Returns (gameOverNow s)
              else if list_ex (\<lambda>segment. x segment = x newHead \<and> y segment = y newHead) (snake s)
              then Returns (gameOverNow s)
              else (let newSnake = newHead # snake s
                    in if x newHead = x (food s) \<and> y newHead = y (food s)
                       then (case generateFood rnd (draws s) newSnake of
                               None \<Rightarrow> Diverges
                             | Some (newFood, d) \<Rightarrow>
                                 Returns (s\<lparr>score := score s + 10,
                                            speed := max 50 (speed s - SPEED_INCREMENT),
                                            food := newFood, draws := d, snake := newSnake\<rparr>))
                       else Returns (s\<lparr>snake := butlast newSnake\<rparr>))))"

subsection \<open>The clock\<close>

text \<open>
  \<^verbatim>\<open>loop\<close> is the callback given to \<^verbatim>\<open>requestAnimationFrame\<close>; \<open>time\<close> is the time
  stamp it is called with. Registering the callback again is scheduling and is not part of
  the state.
\<close>

definition loop :: "(nat \<Rightarrow> real) \<Rightarrow> real \<Rightarrow> GameState \<Rightarrow> GameState outcome" where
  "loop rnd time s =
     (if time - lastUpdateTime s > of_int (speed s)
      then (case moveSnake rnd s of
              Returns s' \<Rightarrow> Returns (s'\<lparr>lastUpdateTime := time\<rparr>)
            | TypeError \<Rightarrow> TypeError
            | Diverges \<Rightarrow> Diverges)
      else Returns s)"

subsection \<open>Controls\<close>

definition handleKeyDown :: "string \<Rightarrow> GameState \<Rightarrow> GameState" where
  "handleKeyDown key s =
     (if key = ''ArrowUp'' then
        (if y (direction s) = 0 then s\<lparr>direction := \<lparr>x = 0, y = - 1\<rparr>\<rparr> else s)
      else if key = ''ArrowDown'' then
        (if y (direction s) = 0 then s\<lparr>direction := \<lparr>x = 0, y = 1\<rparr>\<rparr> else s)
      else if key = ''ArrowLeft'' then
        (if x (direction s) = 0 then s\<lparr>direction := \<lparr>x = - 1, y = 0\<rparr>\<rparr> else s)
      else if key = ''ArrowRight'' then
        (if x (direction s) = 0 then s\<lparr>direction := \<lparr>x = 1, y = 0\<rparr>\<rparr> else s)
      else if key = '' '' then s\<lparr>isPaused := \<not> isPaused s\<rparr>
      else s)"

text \<open>The \<^verbatim>\<open>onClick\<close> handlers of the four \<^verbatim>\<open>ControlButton\<close>s and of the pause and play buttons.\<close>

definition onClickUp :: "GameState \<Rightarrow> GameState" where
  "onClickUp s = (if y (direction s) = 0 then s\<lparr>direction := \<lparr>x = 0, y = - 1\<rparr>\<rparr> else s)"

definition onClickLeft :: "GameState \<Rightarrow> GameState" where
  "onClickLeft s = (if x (direction s) = 0 then s\<lparr>direction := \<lparr>x = - 1, y = 0\<rparr>\<rparr> else s)"

definition onClickDown :: "GameState \<Rightarrow> GameState" where
  "onClickDown s = (if y (direction s) = 0 then s\<lparr>direction := \<lparr>x = 0, y = 1\<rparr>\<rparr> else s)"

definition onClickRight :: "GameState \<Rightarrow> GameState" where
  "onClickRight s = (if x (direction s) = 0 then s\<lparr>direction := \<lparr>x = 1, y = 0\<rparr>\<rparr> else s)"

definition onClickPause :: "GameState \<Rightarrow> GameState" where
  "onClickPause s = s\<lparr>isPaused := \<not> isPaused s\<rparr>"

definition onClickPlay :: "GameState \<Rightarrow> GameState" where
  "onClickPlay s = s\<lparr>isPaused := False\<rparr>"

definition onClickLogout :: "(nat \<Rightarrow> real) \<Rightarrow> GameState \<Rightarrow> GameState outcome" where
  "onClickLogout rnd s = resetGame rnd (s\<lparr>currentUser := None\<rparr>)"

subsection \<open>Runs of the component\<close>

text \<open>
  The state of a freshly mounted component, from the initial values given to
  \<^verbatim>\<open>useState\<close> and \<^verbatim>\<open>useRef\<close>.
\<close>

definition initialState :: GameState where
  "initialState =
     \<lparr>currentUser = None, snake = INITIAL_SNAKE, food = \<lparr>x = 5, y = 5\<rparr>,
      direction = INITIAL_DIRECTION, isGameOver = False, isPaused = True, score = 0,
      speed = BASE_SPEED, lastUpdateTime = 0, draws = 0, saved = [],
      capturedUser = None, capturedScore = 0\<rparr>"

text \<open>
  The render after a handler. \<open>recreate\<close> makes \<^verbatim>\<open>moveSnake\<close> anew, with the user and
  score of that render in its closure. \<open>rerender s s'\<close> does so when one of the four
  dependencies differs between the state \<open>s\<close> before the handler and the state \<open>s'\<close> after
  it. React compares objects by identity; the comparison by value is the same here, as a
  handler that sets \<^verbatim>\<open>direction\<close> or \<^verbatim>\<open>food\<close> sets a new object of another value (an
  input is applied only across the axis of the direction, and new food is never the cell
  just eaten). The exception is \<^verbatim>\<open>resetGame\<close>, whose food is a new object that may have the
  old value: after it \<^verbatim>\<open>moveSnake\<close> is always made anew.
\<close>

definition recreate :: "GameState \<Rightarrow> GameState" where
  "recreate s = s\<lparr>capturedUser := currentUser s, capturedScore := score s\<rparr>"

definition rerender :: "GameState \<Rightarrow> GameState \<Rightarrow> GameState" where
  "rerender s s' =
     (if direction s' \<noteq> direction s \<or> food s' \<noteq> food s \<or> isPaused s' \<noteq> isPaused s \<or>
         isGameOver s' \<noteq> isGameOver s
      then recreate s' else s')"

fun mapOutcome :: "('a \<Rightarrow> 'b) \<Rightarrow> 'a outcome \<Rightarrow> 'b outcome" where
  "mapOutcome f (Returns a) = Returns (f a)"
| "mapOutcome f TypeError = TypeError"
| "mapOutcome f Diverges = Diverges"

text \<open>
  What can happen to a mounted component: \<open>Tick\<close> is one call of \<^verbatim>\<open>moveSnake\<close>,
  \<open>Frame t\<close> one call of \<^verbatim>\<open>loop\<close> at time \<open>t\<close>, \<open>Login\<close> the \<^verbatim>\<open>onLogin\<close> callback
  (\<^verbatim>\<open>setCurrentUser\<close>), and the rest are key presses and button clicks. Each is followed
  by its render.
\<close>

datatype event =
    Tick
  | Frame real
  | KeyDown string
  | ClickUp | ClickLeft | ClickDown | ClickRight
  | ClickPause | ClickPlay
  | ClickTryAgain
  | Login UserToken
  | ClickLogout

fun step :: "(nat \<Rightarrow> real) \<Rightarrow> event \<Rightarrow> GameState \<Rightarrow> GameState outcome" where
  "step rnd Tick s = mapOutcome (rerender s) (moveSnake rnd s)"
| "step rnd (Frame t) s = mapOutcome (rerender s) (loop rnd t s)"
| "step rnd (KeyDown key) s = Returns (rerender s (handleKeyDown key s))"
| "step rnd ClickUp s = Returns (rerender s (onClickUp s))"
| "step rnd ClickLeft s = Returns (rerender s (onClickLeft s))"
| "step rnd ClickDown s = Returns (rerender s (onClickDown s))"
| "step rnd ClickRight s = Returns (rerender s (onClickRight s))"
| "step rnd ClickPause s = Returns (rerender s (onClickPause s))"
| "step rnd ClickPlay s = Returns (rerender s (onClickPlay s))"
| "step rnd ClickTryAgain s = mapOutcome recreate (resetGame rnd s)"
| "step rnd (Login u) s = Returns (rerender s (s\<lparr>currentUser := Some u\<rparr>))"
| "step rnd ClickLogout s = mapOutcome recreate (onClickLogout rnd s)"

fun run :: "(nat \<Rightarrow> real) \<Rightarrow> event list \<Rightarrow> GameState \<Rightarrow> GameState outcome" where
  "run rnd [] s = Returns s"
| "run rnd (e # es) s =
     (case step rnd e s of
        Returns s' \<Rightarrow> run rnd es s'
      | TypeError \<Rightarrow> TypeError
      | Diverges \<Rightarrow> Diverges)"

subsection \<open>Vocabulary of the properties\<close>

text \<open>The cells of the board, and the cell that round \<open>d\<close> of the food loop proposes.\<close>

definition inGrid :: "Point \<Rightarrow> bool" where
  "inGrid p \<longleftrightarrow> 0 \<le> x p \<and> x p < GRID_SIZE \<and> 0 \<le> y p \<and> y p < GRID_SIZE"

definition candidate :: "(nat \<Rightarrow> real) \<Rightarrow> nat \<Rightarrow> Point" where
  "candidate rnd d = \<lparr>x = \<lfloor>rnd d * of_int GRID_SIZE\<rfloor>, y = \<lfloor>rnd (d + 1) * of_int GRID_SIZE\<rfloor>\<rparr>"

text \<open>
  What is assumed of \<^verbatim>\<open>Math.random()\<close>: every result lies in \<open>[0, 1)\<close>, and from any
  call onwards every cell of the board is proposed again at some later round. A uniform
  random sequence has the second property with probability one.
\<close>

definition fair :: "(nat \<Rightarrow> real) \<Rightarrow> bool" where
  "fair rnd \<longleftrightarrow>
     (\<forall>i. 0 \<le> rnd i \<and> rnd i < 1) \<and>
     (\<forall>d p. inGrid p \<longrightarrow> (\<exists>k. candidate rnd (d + 2 * k) = p))"

text \<open>A fair sequence that is not random at all: it walks the board row by row.\<close>

definition cyc :: "nat \<Rightarrow> real" where
  "cyc i = real (if even i then (i div 2) mod 20 else (i div 40) mod 20) / 20"

text \<open>The cell in front of the head, if there is a head.\<close>

definition newHeadOf :: "GameState \<Rightarrow> Point" where
  "newHeadOf s =
     \<lparr>x = x (hd (snake s)) + x (direction s), y = y (hd (snake s)) + y (direction s)\<rparr>"

text \<open>
  A tick consumes food when the game runs, the snake has a head, the cell in front of the
  head is on the board, is not on the snake, and is the food cell.
\<close>

definition eats :: "GameState \<Rightarrow> bool" where
  "eats s \<longleftrightarrow>
     \<not> isPaused s \<and> \<not> isGameOver s \<and> snake s \<noteq> [] \<and> inGrid (newHeadOf s) \<and>
     newHeadOf s \<notin> set (snake s) \<and> newHeadOf s = food s"

definition opposite :: "Point \<Rightarrow> Point" where
  "opposite p = \<lparr>x = - x p, y = - y p\<rparr>"

definition unitDirection :: "Point \<Rightarrow> bool" where
  "unitDirection p \<longleftrightarrow>
     p = \<lparr>x = 0, y = - 1\<rparr> \<or> p = \<lparr>x = 0, y = 1\<rparr> \<or> p = \<lparr>x = - 1, y = 0\<rparr> \<or> p = \<lparr>x = 1, y = 0\<rparr>"

text \<open>
  The direction an input asks for: the four arrow keys and the four control buttons. Any
  other key asks for none.
\<close>

fun requested :: "event \<Rightarrow> Point option" where
  "requested (KeyDown key) =
     (if key = ''ArrowUp'' then Some \<lparr>x = 0, y = - 1\<rparr>
      else if key = ''ArrowDown'' then Some \<lparr>x = 0, y = 1\<rparr>
      else if key = ''ArrowLeft'' then Some \<lparr>x = - 1, y = 0\<rparr>
      else if key = ''ArrowRight'' then Some \<lparr>x = 1, y = 0\<rparr>
      else None)"
| "requested ClickUp = Some \<lparr>x = 0, y = - 1\<rparr>"
| "requested ClickDown = Some \<lparr>x = 0, y = 1\<rparr>"
| "requested ClickLeft = Some \<lparr>x = - 1, y = 0\<rparr>"
| "requested ClickRight = Some \<lparr>x = 1, y = 0\<rparr>"
| "requested _ = None"

text \<open>Whether an event calls \<^verbatim>\<open>moveSnake\<close> in a state, and whether it calls \<^verbatim>\<open>resetGame\<close>.\<close>

fun firesTick :: "event \<Rightarrow> GameState \<Rightarrow> bool" where
  "firesTick Tick s = True"
| "firesTick (Frame t) s = (t - lastUpdateTime s > of_int (speed s))"
| "firesTick _ s = False"

fun resets :: "event \<Rightarrow> bool" where
  "resets ClickTryAgain = True"
| "resets ClickLogout = True"
| "resets _ = False"

text \<open>The number of ticks of a run that consume food.\<close>

fun pickups :: "(nat \<Rightarrow> real) \<Rightarrow> event list \<Rightarrow> GameState \<Rightarrow> nat" where
  "pickups rnd [] s = 0"
| "pickups rnd (e # es) s =
     (if firesTick e s \<and> eats s then 1 else 0) +
     (case step rnd e s of
        Returns s' \<Rightarrow> pickups rnd es s'
      | TypeError \<Rightarrow> 0
      | Diverges \<Rightarrow> 0)"

text \<open>The relation between score, speed and length that a game keeps.\<close>

definition scored :: "GameState \<Rightarrow> bool" where
  "scored s \<longleftrightarrow>
     3 \<le> length (snake s) \<and>
     score s = 10 * (int (length (snake s)) - 3) \<and>
     speed s = max 50 (150 - 2 * (int (length (snake s)) - 3))"

subsection \<open>loginUser\<close>

text \<open>
  \<^verbatim>\<open>loginUser\<close> awaits one query of the Supabase client, which is not part of the
  repository. What the query settles to is a parameter: \<open>Fulfilled error data\<close> is the
  object \<^verbatim>\<open>{ data, error }\<close> (\<open>None\<close> for \<^verbatim>\<open>null\<close>), where \<open>data\<close> is the selected row of
  the user, and \<open>Rejected msg\<close> is a thrown exception whose \<^verbatim>\<open>message\<close> is \<open>msg\<close>.
  The row is read (\<open>the dat\<close>) only after the test that there is one.
\<close>

record PostgrestError =
  code :: string
  message :: string

record UserRow =
  password :: string

datatype settled = Fulfilled "PostgrestError option" "UserRow option" | Rejected string

record LoginResult =
  success :: bool
  token :: "UserToken option"
  error :: "string option"

definition loginUser :: "settled \<Rightarrow> string \<Rightarrow> string \<Rightarrow> LoginResult" where
  "loginUser response uname pword =
     (case response of
        Rejected msg \<Rightarrow> \<lparr>success = False, token = None, error = Some msg\<rparr>
      | Fulfilled err dat \<Rightarrow>
          if err \<noteq> None \<or> dat = None
          then \<lparr>success = False, token = None, error = Some ''User not found''\<rparr>
          else if password (the dat) \<noteq> pword
          then \<lparr>success = False, token = None, error = Some ''Incorrect password''\<rparr>
          else \<lparr>success = True, token = Some \<lparr>username = uname\<rparr>, error = None\<rparr>)"

text \<open>
  The four outcomes the specification names for \<^verbatim>\<open>authenticate\<close>, read off a result:
  success with its token, the two fixed messages, and anything else.
\<close>

datatype AuthOutcome = Success UserToken | NotFound | WrongSecret | OtherError

definition outcomeOf :: "LoginResult \<Rightarrow> AuthOutcome" where
  "outcomeOf r =
     (if success r then (case token r of Some t \<Rightarrow> Success t | None \<Rightarrow> OtherError)
      else if error r = Some ''User not found'' then NotFound
      else if error r = Some ''Incorrect password'' then WrongSecret
      else OtherError)"

subsection \<open>States used as examples\<close>

text \<open>
  A running game with a fresh score, for a given user, snake, food and direction, with
  that user and score in the closure of \<^verbatim>\<open>moveSnake\<close>.
\<close>

definition playing :: "UserToken option \<Rightarrow> Point list \<Rightarrow> Point \<Rightarrow> Point \<Rightarrow> GameState" where
  "playing u ps f dir =
     \<lparr>currentUser = u, snake = ps, food = f, direction = dir, isGameOver = False,
      isPaused = False, score = 0, speed = BASE_SPEED, lastUpdateTime = 0, draws = 0,
      saved = [], capturedUser = u, capturedScore = 0\<rparr>"

definition ann :: UserToken where
  "ann = \<lparr>username = ''ann''\<rparr>"

text \<open>
  A snake that fills the board but for one cell: \<open>cell\<close> walks the board row by row, to the
  right on even rows and to the left on odd ones, so that consecutive cells are neighbours.
  In \<open>almostFull\<close> the head is on \<open>cell 1\<close>, moving left onto the food on \<open>cell 0\<close>.
\<close>

definition cell :: "nat \<Rightarrow> Point" where
  "cell i =
     \<lparr>x = (if even (i div 20) then int (i mod 20) else 19 - int (i mod 20)), y = int (i div 20)\<rparr>"

definition almostFull :: GameState where
  "almostFull = playing (Some ann) (map cell [1..<400]) \<lparr>x = 0, y = 0\<rparr> \<lparr>x = - 1, y = 0\<rparr>"

section \<open>Renders\<close>

text \<open>A render changes nothing but the closure of \<^verbatim>\<open>moveSnake\<close>.\<close>

lemma recreate_fields [simp]:
  "currentUser (recreate s) = currentUser s" "snake (recreate s) = snake s"
  "food (recreate s) = food s" "direction (recreate s) = direction s"
  "isGameOver (recreate s) = isGameOver s" "isPaused (recreate s) = isPaused s"
  "score (recreate s) = score s" "speed (recreate s) = speed s"
  "lastUpdateTime (recreate s) = lastUpdateTime s" "draws (recreate s) = draws s"
  "saved (recreate s) = saved s"
  by (simp_all add: recreate_def)

lemma rerender_fields [simp]:
  "currentUser (rerender s s') = currentUser s'" "snake (rerender s s') = snake s'"
  "food (rerender s s') = food s'" "direction (rerender s s') = direction s'"
  "isGameOver (rerender s s') = isGameOver s'" "isPaused (rerender s s') = isPaused s'"
  "score (rerender s s') = score s'" "speed (rerender s s') = speed s'"
  "lastUpdateTime (rerender s s') = lastUpdateTime s'" "draws (rerender s s') = draws s'"
  "saved (rerender s s') = saved s'"
  by (simp_all add: rerender_def)

lemma rerender_same [simp]: "rerender s s = s"
  by (simp add: rerender_def)

lemma mapOutcome_Returns:
  "mapOutcome f r = Returns b \<longleftrightarrow> (\<exists>a. r = Returns a \<and> b = f a)"
  by (cases r) auto

section \<open>The food loop\<close>

lemma on_snake_iff:
  "list_ex (\<lambda>segment. x segment = x p \<and> y segment = y p) ps \<longleftrightarrow> (p::Point) \<in> set ps"
proof -
  have "x q = x p \<and> y q = y p \<longleftrightarrow> q = p" for q :: Point
    by auto
  then show ?thesis
    by (simp add: list_ex_iff)
qed

lemma generateFood_unfold:
  "generateFood rnd d ps =
     (if candidate rnd d \<in> set ps then generateFood rnd (d + 2) ps
      else Some (candidate rnd d, d + 2))"
  by (subst generateFood.simps) (simp add: Let_def on_snake_iff candidate_def)

lemma generateFood_first_free:
  "(\<forall>j<k. candidate rnd (d + 2 * j) \<in> set ps) \<Longrightarrow> candidate rnd (d + 2 * k) \<notin> set ps \<Longrightarrow>
   generateFood rnd d ps = Some (candidate rnd (d + 2 * k), d + 2 * k + 2)"
proof (induction k arbitrary: d)
  case 0
  then show ?case by (subst generateFood_unfold) simp
next
  case (Suc k)
  from Suc.prems(1) have here: "candidate rnd d \<in> set ps" by force
  have later: "\<forall>j<k. candidate rnd (d + 2 + 2 * j) \<in> set ps"
  proof (intro allI impI)
    fix j assume "j < k"
    then have "candidate rnd (d + 2 * Suc j) \<in> set ps" using Suc.prems(1) by blast
    then show "candidate rnd (d + 2 + 2 * j) \<in> set ps" by (simp add: add.assoc)
  qed
  have free: "candidate rnd (d + 2 + 2 * k) \<notin> set ps"
    using Suc.prems(2) by (simp add: add.assoc)
  have "generateFood rnd (d + 2) ps = Some (candidate rnd (d + 2 + 2 * k), d + 2 + 2 * k + 2)"
    by (rule Suc.IH [OF later free])
  with here show ?case
    by (subst generateFood_unfold) (simp add: add.assoc)
qed

lemma generateFood_Some_D:
  assumes ret: "generateFood rnd d ps = Some r"
  shows "\<exists>k. r = (candidate rnd (d + 2 * k), d + 2 * k + 2) \<and> candidate rnd (d + 2 * k) \<notin> set ps"
proof (rule generateFood.raw_induct
    [where P = "\<lambda>rnd d ps r. \<exists>k. r = (candidate rnd (d + 2 * k), d + 2 * k + 2) \<and>
                                 candidate rnd (d + 2 * k) \<notin> set ps", OF _ ret])
  fix gf :: "(nat \<Rightarrow> real) \<Rightarrow> nat \<Rightarrow> Point list \<Rightarrow> (Point \<times> nat) option"
  fix rnd d ps r
  assume IH: "\<And>rnd d ps r. gf rnd d ps = Some r \<Longrightarrow>
      \<exists>k. r = (candidate rnd (d + 2 * k), d + 2 * k + 2) \<and> candidate rnd (d + 2 * k) \<notin> set ps"
  assume body: "(let newFood = \<lparr>x = \<lfloor>rnd d * of_int GRID_SIZE\<rfloor>, y = \<lfloor>rnd (d + 1) * of_int GRID_SIZE\<rfloor>\<rparr>;
          isOnSnake = list_ex (\<lambda>segment. x segment = x newFood \<and> y segment = y newFood) ps
      in if \<not> isOnSnake then Some (newFood, d + 2) else gf rnd (d + 2) ps) = Some r"
  show "\<exists>k. r = (candidate rnd (d + 2 * k), d + 2 * k + 2) \<and> candidate rnd (d + 2 * k) \<notin> set ps"
  proof (cases "candidate rnd d \<in> set ps")
    case True
    with body have "gf rnd (d + 2) ps = Some r"
      by (simp add: Let_def on_snake_iff candidate_def)
    from IH [OF this] obtain k where
      "r = (candidate rnd (d + 2 + 2 * k), d + 2 + 2 * k + 2)" "candidate rnd (d + 2 + 2 * k) \<notin> set ps"
      by blast
    then have "r = (candidate rnd (d + 2 * Suc k), d + 2 * Suc k + 2) \<and>
               candidate rnd (d + 2 * Suc k) \<notin> set ps"
      by (simp add: add.assoc)
    then show ?thesis by blast
  next
    case False
    with body have "r = (candidate rnd (d + 2 * 0), d + 2 * 0 + 2)"
      by (simp add: Let_def on_snake_iff candidate_def)
    with False have "r = (candidate rnd (d + 2 * 0), d + 2 * 0 + 2) \<and>
                     candidate rnd (d + 2 * 0) \<notin> set ps"
      by simp
    then show ?thesis by blast
  qed
qed

text \<open>A run of the food loop that is never offered a free cell does not return.\<close>

lemma generateFood_None:
  "(\<forall>k. candidate rnd (d + 2 * k) \<in> set ps) \<Longrightarrow> generateFood rnd d ps = None"
  using generateFood_Some_D [of rnd d ps] by (cases "generateFood rnd d ps") auto

subsection \<open>The board and fair sequences\<close>

lemma candidate_inGrid:
  assumes "\<forall>i. 0 \<le> rnd i \<and> rnd i < 1"
  shows "inGrid (candidate rnd d)"
proof -
  have "0 \<le> \<lfloor>rnd i * 20\<rfloor> \<and> \<lfloor>rnd i * 20\<rfloor> < 20" for i
  proof -
    from assms have "0 \<le> rnd i" "rnd i < 1" by simp_all
    then have "0 \<le> rnd i * 20" "rnd i * 20 < 20" by simp_all
    then show ?thesis by (simp add: floor_less_iff)
  qed
  then show ?thesis
    by (simp add: inGrid_def candidate_def GRID_SIZE_def)
qed

lemma Collect_inGrid:
  "Collect inGrid = (\<lambda>(a, b). \<lparr>x = a, y = b\<rparr>) ` ({0..<20} \<times> {0..<20})"
proof (intro set_eqI iffI)
  fix p assume "p \<in> Collect inGrid"
  then have "p = (\<lambda>(a, b). \<lparr>x = a, y = b\<rparr>) (x p, y p)" "(x p, y p) \<in> {0..<20} \<times> {0..<20}"
    by (simp_all add: inGrid_def GRID_SIZE_def)
  then show "p \<in> (\<lambda>(a, b). \<lparr>x = a, y = b\<rparr>) ` ({0..<20} \<times> {0..<20})"
    by (rule image_eqI)
next
  fix p assume "p \<in> (\<lambda>(a, b). \<lparr>x = a, y = b\<rparr>) ` ({0..<20} \<times> {0..<20})"
  then show "p \<in> Collect inGrid"
    by (auto simp: inGrid_def GRID_SIZE_def)
qed

lemma card_grid: "card (Collect inGrid) = 400"
proof -
  have "inj_on (\<lambda>(a, b). \<lparr>x = a, y = b\<rparr>) ({0..<20::int} \<times> {0..<20::int})"
    by (auto simp: inj_on_def)
  then show ?thesis
    by (simp add: Collect_inGrid card_image)
qed

lemma free_cell:
  assumes "card (Collect inGrid \<inter> set ps) < 400"
  shows "\<exists>p. inGrid p \<and> p \<notin> set ps"
proof (rule ccontr)
  assume "\<not> (\<exists>p. inGrid p \<and> p \<notin> set ps)"
  then have "Collect inGrid \<inter> set ps = Collect inGrid" by auto
  with assms show False by (simp add: card_grid)
qed

lemma occupied_le_length: "card (Collect inGrid \<inter> set ps) \<le> length ps"
proof -
  have "card (Collect inGrid \<inter> set ps) \<le> card (set ps)"
    by (rule card_mono) simp_all
  also have "\<dots> \<le> length ps" by (rule card_length)
  finally show ?thesis .
qed

lemma generateFood_fair:
  assumes "fair rnd" and "card (Collect inGrid \<inter> set ps) < 400"
  shows "\<exists>p d'. generateFood rnd d ps = Some (p, d') \<and> inGrid p \<and> p \<notin> set ps"
proof -
  from free_cell [OF assms(2)] obtain q where q: "inGrid q" "q \<notin> set ps" by blast
  with assms(1) obtain k0 where "candidate rnd (d + 2 * k0) = q"
    unfolding fair_def by blast
  with q have ex: "candidate rnd (d + 2 * k0) \<notin> set ps" by simp
  define k where "k = (LEAST k. candidate rnd (d + 2 * k) \<notin> set ps)"
  have free: "candidate rnd (d + 2 * k) \<notin> set ps"
    unfolding k_def using ex by (rule LeastI)
  have before: "\<forall>j<k. candidate rnd (d + 2 * j) \<in> set ps"
    unfolding k_def using not_less_Least by blast
  have "generateFood rnd d ps = Some (candidate rnd (d + 2 * k), d + 2 * k + 2)"
    by (rule generateFood_first_free [OF before free])
  moreover have "inGrid (candidate rnd (d + 2 * k))"
    using assms(1) by (intro candidate_inGrid) (simp add: fair_def)
  ultimately show ?thesis using free by blast
qed

text \<open>The sequence \<open>cyc\<close> is fair.\<close>

lemma floor_cyc:
  "\<lfloor>cyc i * of_int GRID_SIZE\<rfloor> = int (if even i then (i div 2) mod 20 else (i div 40) mod 20)"
  by (simp add: cyc_def GRID_SIZE_def)

lemma candidate_cyc_even:
  "candidate cyc (2 * m) = \<lparr>x = int (m mod 20), y = int ((m div 20) mod 20)\<rparr>"
proof -
  have "(2 * m + 1) div 40 = m div 20" by presburger
  then show ?thesis by (simp add: candidate_def floor_cyc)
qed

lemma candidate_cyc_odd:
  "candidate cyc (2 * m + 1) = \<lparr>x = int ((m div 20) mod 20), y = int ((m + 1) mod 20)\<rparr>"
proof -
  have "(2 * m + 1) div 40 = m div 20" by presburger
  moreover have "(2 * m + 2) div 2 = m + 1" by presburger
  ultimately show ?thesis by (simp add: candidate_def floor_cyc)
qed

lemma cyc_unit: "0 \<le> cyc i \<and> cyc i < 1"
proof -
  have "(i div 2) mod 20 < 20" "(i div 40) mod 20 < 20" by simp_all
  then show ?thesis by (simp add: cyc_def)
qed


lemma cyc_digits:
  assumes "a < 20"
  shows "(20 * q + a) mod 20 = a" and "(20 * q + a) div 20 = (q::nat)"
  using assms by simp_all

lemma fair_cyc: "fair cyc"
proof -
  have "\<exists>k. candidate cyc (d + 2 * k) = p" if "inGrid p" for d p
  proof -
    define a b where "a = nat (x p)" and "b = nat (y p)"
    from that have range: "0 \<le> x p" "x p < 20" "0 \<le> y p" "y p < 20"
      by (simp_all add: inGrid_def GRID_SIZE_def)
    then have ab: "x p = int a" "y p = int b" "a < 20" "b < 20"
      unfolding a_def b_def by linarith+
    have p: "p = \<lparr>x = int a, y = int b\<rparr>" using ab by simp
    show ?thesis
    proof (cases "even d")
      case True
      then obtain j where j: "d = 2 * j" by (auto elim: evenE)
      define m where "m = 20 * (20 * j + b) + a"
      have "j \<le> m" by (simp add: m_def)
      then have "d + 2 * (m - j) = 2 * m" by (simp add: j)
      moreover have "m mod 20 = a" "m div 20 = 20 * j + b"
        unfolding m_def using ab(3) by (rule cyc_digits)+
      moreover have "(20 * j + b) mod 20 = b" using ab(4) by (rule cyc_digits)
      ultimately have "candidate cyc (d + 2 * (m - j)) = p"
        by (simp only: candidate_cyc_even p)
      then show ?thesis ..
    next
      case False
      then obtain j where j: "d = 2 * j + 1" by (auto elim: oddE)
      define c where "c = (b + 19) mod 20"
      have c: "c < 20" by (simp add: c_def)
      have c1: "(c + 1) mod 20 = b" using ab(4) unfolding c_def by presburger
      define m where "m = 20 * (20 * j + a) + c"
      have "j \<le> m" by (simp add: m_def)
      then have "d + 2 * (m - j) = 2 * m + 1" by (simp add: j)
      moreover have md: "m mod 20 = c" "m div 20 = 20 * j + a"
        unfolding m_def using c by (rule cyc_digits)+
      moreover have "(20 * j + a) mod 20 = a" using ab(3) by (rule cyc_digits)
      moreover have "(m + 1) mod 20 = b"
      proof -
        have "(m + 1) mod 20 = (m mod 20 + 1) mod 20" by (rule mod_add_left_eq [symmetric])
        then show ?thesis by (simp only: md c1)
      qed
      ultimately have "candidate cyc (d + 2 * (m - j)) = p"
        by (simp only: candidate_cyc_odd p)
      then show ?thesis ..
    qed
  qed
  then show ?thesis
    by (simp add: fair_def cyc_unit)
qed

text \<open>
  C7. For a fair sequence of random numbers and a snake that occupies fewer than all 400
  cells of the board, \<^verbatim>\<open>generateFood\<close> returns, and the point it returns has both
  coordinates in \<open>[0, 20)\<close> and is not a segment of the snake.
\<close>

theorem generateFood_terminates:
  "fair rnd \<Longrightarrow> card (Collect inGrid \<inter> set currentSnake) < 400 \<Longrightarrow>
   \<exists>newFood d'. generateFood rnd d currentSnake = Some (newFood, d') \<and>
     0 \<le> x newFood \<and> x newFood < 20 \<and> 0 \<le> y newFood \<and> y newFood < 20 \<and>
     newFood \<notin> set currentSnake"
  using generateFood_fair [of rnd currentSnake d]
  by (simp add: inGrid_def GRID_SIZE_def)

theorem generateFood_terminates_witness:
  "fair cyc \<and>
   card (Collect inGrid \<inter> set [\<lparr>x = 0, y = 0\<rparr>, \<lparr>x = 1, y = 0\<rparr>, \<lparr>x = 2, y = 0\<rparr>]) < 400 \<and>
   (\<exists>newFood d'.
      generateFood cyc 0 [\<lparr>x = 0, y = 0\<rparr>, \<lparr>x = 1, y = 0\<rparr>, \<lparr>x = 2, y = 0\<rparr>] = Some (newFood, d') \<and>
      0 \<le> x newFood \<and> x newFood < 20 \<and> 0 \<le> y newFood \<and> y newFood < 20 \<and>
      newFood \<notin> set [\<lparr>x = 0, y = 0\<rparr>, \<lparr>x = 1, y = 0\<rparr>, \<lparr>x = 2, y = 0\<rparr>]) \<and>
   generateFood cyc 0 [\<lparr>x = 0, y = 0\<rparr>, \<lparr>x = 1, y = 0\<rparr>, \<lparr>x = 2, y = 0\<rparr>] =
     Some (\<lparr>x = 3, y = 0\<rparr>, 8)"
proof -
  let ?ps = "[\<lparr>x = 0, y = 0\<rparr>, \<lparr>x = 1, y = 0\<rparr>, \<lparr>x = 2, y = 0\<rparr>] :: Point list"
  have few: "card (Collect inGrid \<inter> set ?ps) < 400"
    using occupied_le_length [of ?ps] by simp
  have val: "generateFood cyc 0 ?ps = Some (\<lparr>x = 3, y = 0\<rparr>, 8)"
    by (simp add: generateFood_unfold candidate_def floor_cyc)
  from generateFood_terminates [OF fair_cyc few, of 0] fair_cyc few val
  show ?thesis by blast
qed

section \<open>One tick of a running game\<close>

lemma moveSnake_running:
  assumes "\<not> isPaused s" "\<not> isGameOver s" "snake s \<noteq> []"
  shows "moveSnake rnd s =
    (if \<not> inGrid (newHeadOf s) \<or> newHeadOf s \<in> set (snake s) then Returns (gameOverNow s)
     else if newHeadOf s = food s
     then (case generateFood rnd (draws s) (newHeadOf s # snake s) of
             None \<Rightarrow> Diverges
           | Some (newFood, d) \<Rightarrow>
               Returns (s\<lparr>score := score s + 10, speed := max 50 (speed s - 2),
                          food := newFood, draws := d, snake := newHeadOf s # snake s\<rparr>))
     else Returns (s\<lparr>snake := butlast (newHeadOf s # snake s)\<rparr>))"
proof -
  from assms(3) obtain h t where ht: "snake s = h # t" by (cases "snake s") auto
  define n where "n = newHeadOf s"
  have n: "n = \<lparr>x = x h + x (direction s), y = y h + y (direction s)\<rparr>"
    by (simp add: n_def newHeadOf_def ht)
  have code: "moveSnake rnd s =
    (if x n < 0 \<or> x n \<ge> GRID_SIZE \<or> y n < 0 \<or> y n \<ge> GRID_SIZE then Returns (gameOverNow s)
     else if list_ex (\<lambda>segment. x segment = x n \<and> y segment = y n) (snake s)
     then Returns (gameOverNow s)
     else if x n = x (food s) \<and> y n = y (food s)
     then (case generateFood rnd (draws s) (n # snake s) of
             None \<Rightarrow> Diverges
           | Some (newFood, d) \<Rightarrow>
               Returns (s\<lparr>score := score s + 10, speed := max 50 (speed s - SPEED_INCREMENT),
                          food := newFood, draws := d, snake := n # snake s\<rparr>))
     else Returns (s\<lparr>snake := butlast (n # snake s)\<rparr>))"
    unfolding moveSnake_def using assms(1,2)
    by (simp only: simp_thms if_False ht list.case n [symmetric] Let_def)
  have eq: "x n = x (food s) \<and> y n = y (food s) \<longleftrightarrow> n = food s"
    by auto
  have grid: "(x n < 0 \<or> GRID_SIZE \<le> x n \<or> y n < 0 \<or> GRID_SIZE \<le> y n) \<longleftrightarrow> \<not> inGrid n"
    by (auto simp: inGrid_def)
  show ?thesis
    unfolding code n_def [symmetric]
    by (simp only: on_snake_iff eq grid SPEED_INCREMENT_def) simp
qed

text \<open>
  C3. In a running game (neither paused nor over), when the cell in front of the head is a
  cell of the snake as it is before the move, the tail cell included, \<^verbatim>\<open>moveSnake\<close>
  sets \<^verbatim>\<open>isGameOver\<close> and leaves the snake and the score as they were.
\<close>

theorem moveSnake_self_collision:
  "\<not> isPaused s \<Longrightarrow> \<not> isGameOver s \<Longrightarrow> newHeadOf s \<in> set (snake s) \<Longrightarrow>
   \<exists>s'. moveSnake rnd s = Returns s' \<and> isGameOver s' \<and> snake s' = snake s \<and> score s' = score s"
proof -
  assume running: "\<not> isPaused s" "\<not> isGameOver s" and hit: "newHeadOf s \<in> set (snake s)"
  from hit have "snake s \<noteq> []" by auto
  with running hit have "moveSnake rnd s = Returns (gameOverNow s)"
    by (simp add: moveSnake_running)
  then show ?thesis by (simp add: gameOverNow_def)
qed

text \<open>A snake of length 4 that turns onto its own tail cell, which this tick would have vacated.\<close>

theorem moveSnake_self_collision_witness:
  "\<not> isPaused (playing (Some ann) [\<lparr>x = 5, y = 5\<rparr>, \<lparr>x = 5, y = 6\<rparr>, \<lparr>x = 6, y = 6\<rparr>, \<lparr>x = 6, y = 5\<rparr>]
       \<lparr>x = 0, y = 0\<rparr> \<lparr>x = 1, y = 0\<rparr>) \<and>
   \<not> isGameOver (playing (Some ann) [\<lparr>x = 5, y = 5\<rparr>, \<lparr>x = 5, y = 6\<rparr>, \<lparr>x = 6, y = 6\<rparr>, \<lparr>x = 6, y = 5\<rparr>]
       \<lparr>x = 0, y = 0\<rparr> \<lparr>x = 1, y = 0\<rparr>) \<and>
   newHeadOf (playing (Some ann) [\<lparr>x = 5, y = 5\<rparr>, \<lparr>x = 5, y = 6\<rparr>, \<lparr>x = 6, y = 6\<rparr>, \<lparr>x = 6, y = 5\<rparr>]
       \<lparr>x = 0, y = 0\<rparr> \<lparr>x = 1, y = 0\<rparr>) = \<lparr>x = 6, y = 5\<rparr> \<and>
   (\<exists>s'. moveSnake cyc (playing (Some ann) [\<lparr>x = 5, y = 5\<rparr>, \<lparr>x = 5, y = 6\<rparr>, \<lparr>x = 6, y = 6\<rparr>, \<lparr>x = 6, y = 5\<rparr>]
       \<lparr>x = 0, y = 0\<rparr> \<lparr>x = 1, y = 0\<rparr>) = Returns s' \<and> isGameOver s' \<and>
     snake s' = [\<lparr>x = 5, y = 5\<rparr>, \<lparr>x = 5, y = 6\<rparr>, \<lparr>x = 6, y = 6\<rparr>, \<lparr>x = 6, y = 5\<rparr>] \<and> score s' = 0)"
proof -
  let ?s = "playing (Some ann) [\<lparr>x = 5, y = 5\<rparr>, \<lparr>x = 5, y = 6\<rparr>, \<lparr>x = 6, y = 6\<rparr>, \<lparr>x = 6, y = 5\<rparr>]
       \<lparr>x = 0, y = 0\<rparr> \<lparr>x = 1, y = 0\<rparr>"
  have running: "\<not> isPaused ?s" "\<not> isGameOver ?s"
    by (simp_all add: playing_def)
  have front: "newHeadOf ?s = \<lparr>x = 6, y = 5\<rparr>"
    by (simp add: newHeadOf_def playing_def)
  then have hit: "newHeadOf ?s \<in> set (snake ?s)"
    by (simp add: playing_def)
  have fields: "snake ?s = [\<lparr>x = 5, y = 5\<rparr>, \<lparr>x = 5, y = 6\<rparr>, \<lparr>x = 6, y = 6\<rparr>, \<lparr>x = 6, y = 5\<rparr>]" "score ?s = 0"
    by (simp_all add: playing_def)
  from moveSnake_self_collision [OF running hit, of cyc] running front
  show ?thesis unfolding fields by blast
qed

lemma moveSnake_eating:
  assumes "eats s"
  shows "moveSnake rnd s =
      (case generateFood rnd (draws s) (newHeadOf s # snake s) of
         None \<Rightarrow> Diverges
       | Some (newFood, d) \<Rightarrow>
           Returns (s\<lparr>score := score s + 10, speed := max 50 (speed s - 2),
                      food := newFood, draws := d, snake := newHeadOf s # snake s\<rparr>))"
proof -
  from assms have running: "\<not> isPaused s" "\<not> isGameOver s" "snake s \<noteq> []"
    and clear: "\<not> (\<not> inGrid (newHeadOf s) \<or> newHeadOf s \<in> set (snake s))"
    and onFood: "newHeadOf s = food s"
    unfolding eats_def by blast+
  show ?thesis
    unfolding moveSnake_running [OF running]
    by (simp only: if_not_P [OF clear] if_P [OF onFood])
qed

text \<open>On the board that is full after the move, the food loop is never offered a free cell.\<close>

lemma cell_inj0:
  assumes "1 \<le> i"
  shows "cell i \<noteq> \<lparr>x = 0, y = 0\<rparr>"
proof
  assume "cell i = \<lparr>x = 0, y = 0\<rparr>"
  then have xy: "x (cell i) = 0" "y (cell i) = 0" by simp_all
  from xy(2) have row: "i div 20 = 0" by (simp add: cell_def)
  with xy(1) have "i mod 20 = 0" by (simp add: cell_def)
  with row have "i = 0" by presburger
  with assms show False by simp
qed

lemma cell_covers:
  assumes "inGrid p"
  shows "p = \<lparr>x = 0, y = 0\<rparr> \<or> p \<in> cell ` {1..<400}"
proof -
  define a b where "a = nat (x p)" and "b = nat (y p)"
  from assms have range: "0 \<le> x p" "x p < 20" "0 \<le> y p" "y p < 20"
    by (simp_all add: inGrid_def GRID_SIZE_def)
  then have ab: "x p = int a" "y p = int b" "a < 20" "b < 20"
    unfolding a_def b_def by linarith+
  define c where "c = (if even b then a else 19 - a)"
  have "19 - a < 20" by arith
  with ab have c: "c < 20" by (simp add: c_def)
  from ab have ic: "int c = (if even b then int a else 19 - int a)"
    by (simp add: c_def of_nat_diff)
  define i where "i = 20 * b + c"
  have digits: "i mod 20 = c" "i div 20 = b"
    unfolding i_def using c by (rule cyc_digits)+
  have "cell i = p"
    using ab by (simp add: cell_def digits ic)
  moreover have "i < 400" using ab c by (simp add: i_def)
  moreover have "i = 0 \<Longrightarrow> p = \<lparr>x = 0, y = 0\<rparr>"
    using ab by (auto simp: i_def c_def split: if_splits)
  ultimately show ?thesis
    by (cases "i = 0") auto
qed

lemma almostFull_eats: "eats almostFull"
proof -
  have "hd (map cell [1..<400]) = cell 1"
    by (simp add: hd_map)
  then have front: "newHeadOf almostFull = \<lparr>x = 0, y = 0\<rparr>"
    by (simp add: newHeadOf_def almostFull_def playing_def cell_def)
  have "\<lparr>x = 0, y = 0\<rparr> \<notin> set (map cell [1..<400])"
  proof
    assume "\<lparr>x = 0, y = 0\<rparr> \<in> set (map cell [1..<400])"
    then obtain i where "1 \<le> i" "cell i = \<lparr>x = 0, y = 0\<rparr>" by auto
    with cell_inj0 show False by blast
  qed
  with front show ?thesis
    by (simp add: eats_def almostFull_def playing_def inGrid_def GRID_SIZE_def)
qed

lemma almostFull_diverges: "moveSnake rnd almostFull = Diverges" if "\<forall>i. 0 \<le> rnd i \<and> rnd i < 1"
proof -
  have e: "eats almostFull" by (rule almostFull_eats)
  have "candidate rnd (d + 2 * k) \<in> set (newHeadOf almostFull # snake almostFull)" for d k
  proof -
    have "inGrid (candidate rnd (d + 2 * k))" using that by (rule candidate_inGrid)
    from cell_covers [OF this] e show ?thesis
      by (auto simp: eats_def almostFull_def playing_def)
  qed
  then have "generateFood rnd (draws almostFull) (newHeadOf almostFull # snake almostFull) = None"
    by (intro generateFood_None) simp
  then show ?thesis
    by (simp add: moveSnake_eating [OF e])
qed

text \<open>
  C1. In a running game, when the cell in front of the head is the food cell and no wall
  or self collision occurs, and the snake after growth leaves a cell of the board free,
  one tick (with a fair sequence of random numbers) adds 10 to the score, sets the speed to
  \<open>max 50 (speed - 2)\<close>, puts the new head in front of the unchanged snake, and places the
  new food on a cell of the board that the grown snake does not occupy.
\<close>

theorem moveSnake_eats:
  "eats s \<Longrightarrow> fair rnd \<Longrightarrow> card (Collect inGrid \<inter> set (newHeadOf s # snake s)) < 400 \<Longrightarrow>
   \<exists>newFood d.
     moveSnake rnd s =
       Returns (s\<lparr>score := score s + 10, speed := max 50 (speed s - 2), food := newFood,
                  draws := d, snake := newHeadOf s # snake s\<rparr>) \<and>
     inGrid newFood \<and> newFood \<notin> set (newHeadOf s # snake s)"
proof -
  assume e: "eats s" and f: "fair rnd"
    and few: "card (Collect inGrid \<inter> set (newHeadOf s # snake s)) < 400"
  from generateFood_fair [OF f few, of "draws s"] obtain p d where
    gen: "generateFood rnd (draws s) (newHeadOf s # snake s) = Some (p, d)"
    and p: "inGrid p" "p \<notin> set (newHeadOf s # snake s)"
    by blast
  from gen have "moveSnake rnd s =
      Returns (s\<lparr>score := score s + 10, speed := max 50 (speed s - 2), food := p,
                 draws := d, snake := newHeadOf s # snake s\<rparr>)"
    by (simp add: moveSnake_eating [OF e])
  with p show ?thesis by blast
qed

text \<open>
  Without the free cell the tick does not return: the snake of \<open>almostFull\<close> eats the food
  on the last free cell, and the food loop then rejects every cell it is offered.
\<close>

theorem moveSnake_eats_counterexample:
  "eats almostFull \<and> fair cyc \<and> moveSnake cyc almostFull = Diverges"
  using almostFull_eats fair_cyc almostFull_diverges [of cyc] cyc_unit by simp

text \<open>
  The scenario of the specification: from the initial snake, heading up, with the food
  on \<open>(10, 9)\<close>, score 0 and speed 150, one tick gives a snake of four cells, score 10 and
  speed 148.
\<close>

theorem moveSnake_eats_witness:
  "eats (playing (Some ann) INITIAL_SNAKE \<lparr>x = 10, y = 9\<rparr> INITIAL_DIRECTION) \<and> fair cyc \<and>
   card (Collect inGrid \<inter> set [\<lparr>x = 10, y = 9\<rparr>, \<lparr>x = 10, y = 10\<rparr>, \<lparr>x = 10, y = 11\<rparr>, \<lparr>x = 10, y = 12\<rparr>]) < 400 \<and>
   (\<exists>newFood d.
      moveSnake cyc (playing (Some ann) INITIAL_SNAKE \<lparr>x = 10, y = 9\<rparr> INITIAL_DIRECTION) =
        Returns ((playing (Some ann) INITIAL_SNAKE \<lparr>x = 10, y = 9\<rparr> INITIAL_DIRECTION)
          \<lparr>score := 10, speed := 148, food := newFood, draws := d,
           snake := [\<lparr>x = 10, y = 9\<rparr>, \<lparr>x = 10, y = 10\<rparr>, \<lparr>x = 10, y = 11\<rparr>, \<lparr>x = 10, y = 12\<rparr>]\<rparr>) \<and>
      inGrid newFood \<and>
      newFood \<notin> set [\<lparr>x = 10, y = 9\<rparr>, \<lparr>x = 10, y = 10\<rparr>, \<lparr>x = 10, y = 11\<rparr>, \<lparr>x = 10, y = 12\<rparr>])"
proof -
  let ?s = "playing (Some ann) INITIAL_SNAKE \<lparr>x = 10, y = 9\<rparr> INITIAL_DIRECTION"
  let ?grown = "[\<lparr>x = 10, y = 9\<rparr>, \<lparr>x = 10, y = 10\<rparr>, \<lparr>x = 10, y = 11\<rparr>, \<lparr>x = 10, y = 12\<rparr>] :: Point list"
  have front: "newHeadOf ?s = \<lparr>x = 10, y = 9\<rparr>"
    by (simp add: newHeadOf_def playing_def INITIAL_SNAKE_def INITIAL_DIRECTION_def)
  have grown: "newHeadOf ?s # snake ?s = ?grown"
    by (simp add: front) (simp add: playing_def INITIAL_SNAKE_def)
  have e: "eats ?s"
    by (simp add: eats_def front inGrid_def GRID_SIZE_def)
       (simp add: playing_def INITIAL_SNAKE_def)
  have few: "card (Collect inGrid \<inter> set ?grown) < 400"
    using occupied_le_length [of ?grown] by simp
  have fields: "score ?s + 10 = 10" "max 50 (speed ?s - 2) = 148"
    by (simp_all add: playing_def BASE_SPEED_def)
  from moveSnake_eats [of ?s cyc] e fair_cyc few
  show ?thesis unfolding grown fields by blast
qed

section \<open>Paused and finished games\<close>

text \<open>
  C8. When \<^verbatim>\<open>isPaused\<close> or \<^verbatim>\<open>isGameOver\<close> holds, \<^verbatim>\<open>moveSnake\<close> returns at once
  and leaves every field of the state as it was (snake, food, direction, score, speed and
  both flags among them), and so does any number of ticks in a row: a finished game stays
  as it is until something other than a tick, such as \<^verbatim>\<open>resetGame\<close>, changes it.
\<close>

theorem moveSnake_frozen:
  "isPaused s \<or> isGameOver s \<Longrightarrow>
   moveSnake rnd s = Returns s \<and> run rnd (replicate n Tick) s = Returns s"
proof -
  assume stopped: "isPaused s \<or> isGameOver s"
  then have one: "moveSnake rnd s = Returns s"
    by (simp add: moveSnake_def)
  have "run rnd (replicate n Tick) s = Returns s"
    by (induction n) (simp_all add: one)
  with one show ?thesis by simp
qed

theorem moveSnake_frozen_witness:
  "isGameOver ((playing (Some ann) INITIAL_SNAKE \<lparr>x = 5, y = 5\<rparr> INITIAL_DIRECTION)\<lparr>isGameOver := True\<rparr>) \<and>
   moveSnake cyc ((playing (Some ann) INITIAL_SNAKE \<lparr>x = 5, y = 5\<rparr> INITIAL_DIRECTION)\<lparr>isGameOver := True\<rparr>) =
     Returns ((playing (Some ann) INITIAL_SNAKE \<lparr>x = 5, y = 5\<rparr> INITIAL_DIRECTION)\<lparr>isGameOver := True\<rparr>) \<and>
   run cyc (replicate 3 Tick) ((playing (Some ann) INITIAL_SNAKE \<lparr>x = 5, y = 5\<rparr> INITIAL_DIRECTION)\<lparr>isGameOver := True\<rparr>) =
     Returns ((playing (Some ann) INITIAL_SNAKE \<lparr>x = 5, y = 5\<rparr> INITIAL_DIRECTION)\<lparr>isGameOver := True\<rparr>)"
  using moveSnake_frozen
    [of "(playing (Some ann) INITIAL_SNAKE \<lparr>x = 5, y = 5\<rparr> INITIAL_DIRECTION)\<lparr>isGameOver := True\<rparr>" cyc 3]
  by simp

section \<open>The clock\<close>

text \<open>
  C5. A call of \<^verbatim>\<open>loop\<close> at time \<open>time\<close> runs \<^verbatim>\<open>moveSnake\<close> once and sets
  \<^verbatim>\<open>lastUpdateTimeRef.current\<close> to \<open>time\<close> when \<open>time - lastUpdateTime\<close> is strictly greater
  than the speed, however many periods have passed; otherwise, also when the difference
  equals the speed, it changes nothing.
\<close>

theorem loop_fires:
  "(of_int (speed s) < time - lastUpdateTime s \<longrightarrow>
      (\<forall>s'. moveSnake rnd s = Returns s' \<longrightarrow>
         loop rnd time s = Returns (s'\<lparr>lastUpdateTime := time\<rparr>))) \<and>
   (time - lastUpdateTime s \<le> of_int (speed s) \<longrightarrow> loop rnd time s = Returns s)"
  by (simp add: loop_def)

text \<open>
  When exactly one period has passed, the condition \<open>now - lastTickTime \<ge> speed\<close> of the
  claim holds, but \<^verbatim>\<open>loop\<close> does not tick: the state stays as it is, though a tick would
  have moved the snake.
\<close>

theorem loop_fires_counterexample:
  "of_int (speed (playing (Some ann) INITIAL_SNAKE \<lparr>x = 5, y = 5\<rparr> INITIAL_DIRECTION))
     \<le> 150 - lastUpdateTime (playing (Some ann) INITIAL_SNAKE \<lparr>x = 5, y = 5\<rparr> INITIAL_DIRECTION) \<and>
   loop cyc 150 (playing (Some ann) INITIAL_SNAKE \<lparr>x = 5, y = 5\<rparr> INITIAL_DIRECTION) =
     Returns (playing (Some ann) INITIAL_SNAKE \<lparr>x = 5, y = 5\<rparr> INITIAL_DIRECTION) \<and>
   lastUpdateTime (playing (Some ann) INITIAL_SNAKE \<lparr>x = 5, y = 5\<rparr> INITIAL_DIRECTION) = 0 \<and>
   moveSnake cyc (playing (Some ann) INITIAL_SNAKE \<lparr>x = 5, y = 5\<rparr> INITIAL_DIRECTION) =
     Returns ((playing (Some ann) INITIAL_SNAKE \<lparr>x = 5, y = 5\<rparr> INITIAL_DIRECTION)
       \<lparr>snake := [\<lparr>x = 10, y = 9\<rparr>, \<lparr>x = 10, y = 10\<rparr>, \<lparr>x = 10, y = 11\<rparr>]\<rparr>)"
  by (simp add: loop_def moveSnake_def playing_def INITIAL_SNAKE_def INITIAL_DIRECTION_def
      GRID_SIZE_def BASE_SPEED_def)

theorem loop_fires_witness:
  "loop cyc 1000 (playing (Some ann) INITIAL_SNAKE \<lparr>x = 5, y = 5\<rparr> INITIAL_DIRECTION) =
     Returns ((playing (Some ann) INITIAL_SNAKE \<lparr>x = 5, y = 5\<rparr> INITIAL_DIRECTION)
       \<lparr>snake := [\<lparr>x = 10, y = 9\<rparr>, \<lparr>x = 10, y = 10\<rparr>, \<lparr>x = 10, y = 11\<rparr>],
        lastUpdateTime := 1000\<rparr>) \<and>
   loop cyc 149 (playing (Some ann) INITIAL_SNAKE \<lparr>x = 5, y = 5\<rparr> INITIAL_DIRECTION) =
     Returns (playing (Some ann) INITIAL_SNAKE \<lparr>x = 5, y = 5\<rparr> INITIAL_DIRECTION)"
proof -
  let ?m = "playing (Some ann) INITIAL_SNAKE \<lparr>x = 5, y = 5\<rparr> INITIAL_DIRECTION"
  have clock: "of_int (speed ?m) < 1000 - lastUpdateTime ?m" "149 - lastUpdateTime ?m \<le> of_int (speed ?m)"
    by (simp_all add: playing_def BASE_SPEED_def)
  have tick: "moveSnake cyc ?m = Returns (?m\<lparr>snake := [\<lparr>x = 10, y = 9\<rparr>, \<lparr>x = 10, y = 10\<rparr>, \<lparr>x = 10, y = 11\<rparr>]\<rparr>)"
    by (simp add: moveSnake_def playing_def INITIAL_SNAKE_def INITIAL_DIRECTION_def GRID_SIZE_def)
  from loop_fires [of ?m 1000 cyc] clock(1) tick
  have one: "loop cyc 1000 ?m =
      Returns (?m\<lparr>snake := [\<lparr>x = 10, y = 9\<rparr>, \<lparr>x = 10, y = 10\<rparr>, \<lparr>x = 10, y = 11\<rparr>],
                 lastUpdateTime := 1000\<rparr>)"
    by blast
  from loop_fires [of ?m 149 cyc] clock(2)
  have two: "loop cyc 149 ?m = Returns ?m"
    by blast
  from one two show ?thesis by blast
qed

section \<open>Controls\<close>

lemma requested_KeyDown:
  "requested (KeyDown key) = Some d \<Longrightarrow>
     key = ''ArrowUp'' \<and> d = \<lparr>x = 0, y = - 1\<rparr> \<or> key = ''ArrowDown'' \<and> d = \<lparr>x = 0, y = 1\<rparr> \<or>
     key = ''ArrowLeft'' \<and> d = \<lparr>x = - 1, y = 0\<rparr> \<or> key = ''ArrowRight'' \<and> d = \<lparr>x = 1, y = 0\<rparr>"
  by (simp split: if_splits)

lemma turn_changes:
  assumes "y (direction s) = 0 \<and> y d \<noteq> 0 \<or> x (direction s) = 0 \<and> x d \<noteq> 0"
  shows "rerender s (s\<lparr>direction := d\<rparr>) = recreate (s\<lparr>direction := d\<rparr>)"
proof -
  from assms have "d \<noteq> direction s" by auto
  then show ?thesis by (simp add: rerender_def)
qed

lemma step_requested:
  assumes "requested e = Some d"
  shows "step rnd e s =
     Returns (if (x d = 0 \<and> y (direction s) = 0) \<or> (y d = 0 \<and> x (direction s) = 0)
              then recreate (s\<lparr>direction := d\<rparr>) else s)"
proof -
  have up: "rerender s (s\<lparr>direction := \<lparr>x = 0, y = - 1\<rparr>\<rparr>) = recreate (s\<lparr>direction := \<lparr>x = 0, y = - 1\<rparr>\<rparr>)"
    and down: "rerender s (s\<lparr>direction := \<lparr>x = 0, y = 1\<rparr>\<rparr>) = recreate (s\<lparr>direction := \<lparr>x = 0, y = 1\<rparr>\<rparr>)"
    if "y (direction s) = 0"
    using that by (simp_all add: turn_changes)
  have left: "rerender s (s\<lparr>direction := \<lparr>x = - 1, y = 0\<rparr>\<rparr>) = recreate (s\<lparr>direction := \<lparr>x = - 1, y = 0\<rparr>\<rparr>)"
    and right: "rerender s (s\<lparr>direction := \<lparr>x = 1, y = 0\<rparr>\<rparr>) = recreate (s\<lparr>direction := \<lparr>x = 1, y = 0\<rparr>\<rparr>)"
    if "x (direction s) = 0"
    using that by (simp_all add: turn_changes)
  show ?thesis
  proof (cases e)
    case (KeyDown key)
    from requested_KeyDown [OF assms [unfolded KeyDown]]
    consider "key = ''ArrowUp''" "d = \<lparr>x = 0, y = - 1\<rparr>" | "key = ''ArrowDown''" "d = \<lparr>x = 0, y = 1\<rparr>"
      | "key = ''ArrowLeft''" "d = \<lparr>x = - 1, y = 0\<rparr>" | "key = ''ArrowRight''" "d = \<lparr>x = 1, y = 0\<rparr>"
      by blast
    then show ?thesis
    proof cases
      case 1 then show ?thesis unfolding KeyDown by (simp add: handleKeyDown_def up)
    next
      case 2 then show ?thesis unfolding KeyDown by (simp add: handleKeyDown_def down)
    next
      case 3 then show ?thesis unfolding KeyDown by (simp add: handleKeyDown_def left)
    next
      case 4 then show ?thesis unfolding KeyDown by (simp add: handleKeyDown_def right)
    qed
  next
    case ClickUp
    with assms show ?thesis by (auto simp: onClickUp_def up)
  next
    case ClickDown
    with assms show ?thesis by (auto simp: onClickDown_def down)
  next
    case ClickLeft
    with assms show ?thesis by (auto simp: onClickLeft_def left)
  next
    case ClickRight
    with assms show ?thesis by (auto simp: onClickRight_def right)
  qed (use assms in simp_all)
qed

lemma requested_unit:
  assumes "requested e = Some d"
  shows "unitDirection d"
proof (cases e)
  case (KeyDown key)
  from requested_KeyDown [OF assms [unfolded KeyDown]] show ?thesis
    unfolding unitDirection_def by blast
qed (use assms in \<open>simp_all add: unitDirection_def\<close>)

lemma unit_cases:
  assumes "unitDirection a"
  obtains "x a = 0" "y a = - 1" | "x a = 0" "y a = 1" | "x a = - 1" "y a = 0" | "x a = 1" "y a = 0"
  using assms unfolding unitDirection_def by auto

lemma unit_perp:
  assumes "unitDirection a" "unitDirection d"
  shows "((x d = 0 \<and> y a = 0) \<or> (y d = 0 \<and> x a = 0)) = (x d * x a + y d * y a = 0)"
  using assms(1)
proof (cases rule: unit_cases)
  case 1 with assms(2) show ?thesis by (cases rule: unit_cases) simp_all
next
  case 2 with assms(2) show ?thesis by (cases rule: unit_cases) simp_all
next
  case 3 with assms(2) show ?thesis by (cases rule: unit_cases) simp_all
next
  case 4 with assms(2) show ?thesis by (cases rule: unit_cases) simp_all
qed

lemma opposite_not_perp:
  assumes "unitDirection a"
  shows "x (opposite a) * x a + y (opposite a) * y a \<noteq> 0" and "a \<noteq> opposite a"
proof -
  show "x (opposite a) * x a + y (opposite a) * y a \<noteq> 0"
    using assms by (cases rule: unit_cases) (simp_all add: opposite_def)
  have "x (opposite a) \<noteq> x a \<or> y (opposite a) \<noteq> y a"
    using assms by (cases rule: unit_cases) (simp_all add: opposite_def)
  then show "a \<noteq> opposite a"
    by metis
qed

text \<open>
  C2. The component has one direction cell and no pending direction: an input is judged
  against the direction as it is when the input arrives, which earlier inputs since the
  last tick may have changed already. An input for a direction is applied exactly when it
  is at a right angle to that direction, and \<^verbatim>\<open>moveSnake\<close> is then made anew; an input for
  the opposite direction is not applied, and after one input the direction is a unit
  vector that is not the opposite of the one before.
\<close>

theorem input_turns:
  "unitDirection (direction s) \<Longrightarrow> requested e = Some d \<Longrightarrow>
   step rnd e s =
     Returns (if x d * x (direction s) + y d * y (direction s) = 0
              then recreate (s\<lparr>direction := d\<rparr>) else s) \<and>
   (d = opposite (direction s) \<longrightarrow> step rnd e s = Returns s) \<and>
   (\<forall>s'. step rnd e s = Returns s' \<longrightarrow>
      direction s' \<noteq> opposite (direction s) \<and> unitDirection (direction s'))"
proof -
  assume u: "unitDirection (direction s)" and r: "requested e = Some d"
  have ud: "unitDirection d"
    using r by (rule requested_unit)
  have st: "step rnd e s =
     Returns (if x d * x (direction s) + y d * y (direction s) = 0
              then recreate (s\<lparr>direction := d\<rparr>) else s)"
    unfolding step_requested [OF r] unit_perp [OF u ud] ..
  have rev: "d = opposite (direction s) \<longrightarrow> step rnd e s = Returns s"
    unfolding st using opposite_not_perp(1) [OF u] by simp
  have after: "direction s' \<noteq> opposite (direction s) \<and> unitDirection (direction s')"
    if "step rnd e s = Returns s'" for s'
  proof (cases "x d * x (direction s) + y d * y (direction s) = 0")
    case True
    with that have s': "direction s' = d" unfolding st by auto
    from True opposite_not_perp(1) [OF u] have "d \<noteq> opposite (direction s)" by auto
    with s' ud show ?thesis by simp
  next
    case False
    with that have "s' = s" unfolding st by simp
    with u opposite_not_perp(2) [OF u] show ?thesis by simp
  qed
  from st rev after show ?thesis by blast
qed

text \<open>
  Two inputs between two ticks do reverse the direction: heading up, a left then a down
  leave the snake heading down, and the next tick runs the head into the neck.
\<close>

theorem input_turns_counterexample:
  "unitDirection (direction (playing (Some ann) INITIAL_SNAKE \<lparr>x = 5, y = 5\<rparr> INITIAL_DIRECTION)) \<and>
   opposite (direction (playing (Some ann) INITIAL_SNAKE \<lparr>x = 5, y = 5\<rparr> INITIAL_DIRECTION)) = \<lparr>x = 0, y = 1\<rparr> \<and>
   run cyc [KeyDown ''ArrowLeft'', KeyDown ''ArrowDown'']
     (playing (Some ann) INITIAL_SNAKE \<lparr>x = 5, y = 5\<rparr> INITIAL_DIRECTION) =
     Returns ((playing (Some ann) INITIAL_SNAKE \<lparr>x = 5, y = 5\<rparr> INITIAL_DIRECTION)
       \<lparr>direction := \<lparr>x = 0, y = 1\<rparr>\<rparr>) \<and>
   run cyc [KeyDown ''ArrowLeft'', KeyDown ''ArrowDown'', Tick]
     (playing (Some ann) INITIAL_SNAKE \<lparr>x = 5, y = 5\<rparr> INITIAL_DIRECTION) =
     Returns ((playing (Some ann) INITIAL_SNAKE \<lparr>x = 5, y = 5\<rparr> INITIAL_DIRECTION)
       \<lparr>direction := \<lparr>x = 0, y = 1\<rparr>, isGameOver := True, saved := [(''ann'', 0)]\<rparr>)"
  by (simp add: playing_def INITIAL_SNAKE_def INITIAL_DIRECTION_def unitDirection_def opposite_def
      handleKeyDown_def moveSnake_def gameOverNow_def GRID_SIZE_def ann_def BASE_SPEED_def
      rerender_def recreate_def)

theorem input_turns_witness:
  "unitDirection (direction (playing (Some ann) INITIAL_SNAKE \<lparr>x = 5, y = 5\<rparr> INITIAL_DIRECTION)) \<and>
   requested (KeyDown ''ArrowDown'') = Some (opposite (direction (playing (Some ann) INITIAL_SNAKE \<lparr>x = 5, y = 5\<rparr> INITIAL_DIRECTION))) \<and>
   step cyc (KeyDown ''ArrowDown'') (playing (Some ann) INITIAL_SNAKE \<lparr>x = 5, y = 5\<rparr> INITIAL_DIRECTION) =
     Returns (playing (Some ann) INITIAL_SNAKE \<lparr>x = 5, y = 5\<rparr> INITIAL_DIRECTION) \<and>
   requested ClickLeft = Some \<lparr>x = - 1, y = 0\<rparr> \<and>
   step cyc ClickLeft (playing (Some ann) INITIAL_SNAKE \<lparr>x = 5, y = 5\<rparr> INITIAL_DIRECTION) =
     Returns ((playing (Some ann) INITIAL_SNAKE \<lparr>x = 5, y = 5\<rparr> INITIAL_DIRECTION)
       \<lparr>direction := \<lparr>x = - 1, y = 0\<rparr>\<rparr>)"
proof -
  let ?m = "playing (Some ann) INITIAL_SNAKE \<lparr>x = 5, y = 5\<rparr> INITIAL_DIRECTION"
  have dir: "direction ?m = \<lparr>x = 0, y = - 1\<rparr>"
    by (simp add: playing_def INITIAL_DIRECTION_def)
  have u: "unitDirection (direction ?m)"
    by (simp add: dir unitDirection_def)
  have down: "requested (KeyDown ''ArrowDown'') = Some (opposite (direction ?m))"
    by (simp add: dir opposite_def)
  have left: "requested ClickLeft = Some \<lparr>x = - 1, y = 0\<rparr>"
    by simp
  from input_turns [OF u down, of cyc]
  have one: "step cyc (KeyDown ''ArrowDown'') ?m = Returns ?m"
    by blast
  have same: "recreate (?m\<lparr>direction := \<lparr>x = - 1, y = 0\<rparr>\<rparr>) = ?m\<lparr>direction := \<lparr>x = - 1, y = 0\<rparr>\<rparr>"
    by (simp add: recreate_def playing_def)
  from input_turns [OF u left, of cyc]
  have two: "step cyc ClickLeft ?m = Returns (?m\<lparr>direction := \<lparr>x = - 1, y = 0\<rparr>\<rparr>)"
    by (simp add: dir same)
  from u down one left two show ?thesis by blast
qed

section \<open>loginUser\<close>

text \<open>
  C9. \<^verbatim>\<open>loginUser\<close> succeeds exactly when the query is fulfilled without error with a row
  whose password is the one supplied, and then the token is the user name. It answers
  \<open>Incorrect password\<close> when such a row has another password, \<open>User not found\<close> whenever
  the query is fulfilled with an error of any kind or with no row, and the message of the
  exception when the query throws. Success and the two fixed messages are told apart.
\<close>

theorem loginUser_outcomes:
  "(success (loginUser r uname pword) \<longleftrightarrow> (\<exists>row. r = Fulfilled None (Some row) \<and> password row = pword)) \<and>
   (success (loginUser r uname pword) \<longrightarrow>
      loginUser r uname pword = \<lparr>success = True, token = Some \<lparr>username = uname\<rparr>, error = None\<rparr>) \<and>
   ((\<exists>row. r = Fulfilled None (Some row) \<and> password row \<noteq> pword) \<longrightarrow>
      loginUser r uname pword = \<lparr>success = False, token = None, error = Some ''Incorrect password''\<rparr>) \<and>
   ((\<exists>e d. r = Fulfilled (Some e) d) \<or> r = Fulfilled None None \<longrightarrow>
      loginUser r uname pword = \<lparr>success = False, token = None, error = Some ''User not found''\<rparr>) \<and>
   (\<forall>msg. r = Rejected msg \<longrightarrow>
      loginUser r uname pword = \<lparr>success = False, token = None, error = Some msg\<rparr>) \<and>
   outcomeOf \<lparr>success = True, token = Some \<lparr>username = uname\<rparr>, error = None\<rparr> = Success \<lparr>username = uname\<rparr> \<and>
   outcomeOf \<lparr>success = False, token = None, error = Some ''User not found''\<rparr> = NotFound \<and>
   outcomeOf \<lparr>success = False, token = None, error = Some ''Incorrect password''\<rparr> = WrongSecret"
proof -
  have named: "outcomeOf \<lparr>success = True, token = Some \<lparr>username = uname\<rparr>, error = None\<rparr> = Success \<lparr>username = uname\<rparr>"
    "outcomeOf \<lparr>success = False, token = None, error = Some ''User not found''\<rparr> = NotFound"
    "outcomeOf \<lparr>success = False, token = None, error = Some ''Incorrect password''\<rparr> = WrongSecret"
    by (simp_all add: outcomeOf_def)
  have body: "(success (loginUser r uname pword) \<longleftrightarrow> (\<exists>row. r = Fulfilled None (Some row) \<and> password row = pword)) \<and>
   (success (loginUser r uname pword) \<longrightarrow>
      loginUser r uname pword = \<lparr>success = True, token = Some \<lparr>username = uname\<rparr>, error = None\<rparr>) \<and>
   ((\<exists>row. r = Fulfilled None (Some row) \<and> password row \<noteq> pword) \<longrightarrow>
      loginUser r uname pword = \<lparr>success = False, token = None, error = Some ''Incorrect password''\<rparr>) \<and>
   ((\<exists>e d. r = Fulfilled (Some e) d) \<or> r = Fulfilled None None \<longrightarrow>
      loginUser r uname pword = \<lparr>success = False, token = None, error = Some ''User not found''\<rparr>) \<and>
   (\<forall>msg. r = Rejected msg \<longrightarrow>
      loginUser r uname pword = \<lparr>success = False, token = None, error = Some msg\<rparr>)"
  proof (cases r)
    case (Rejected msg)
    then show ?thesis by (simp add: loginUser_def)
  next
    case (Fulfilled err dat)
    show ?thesis
    proof (cases dat)
      case None
      with Fulfilled show ?thesis by (simp add: loginUser_def)
    next
      case (Some row)
      show ?thesis
      proof (cases err)
        case None
        with Fulfilled Some show ?thesis by (simp add: loginUser_def)
      next
        case (Some e)
        with Fulfilled \<open>dat = Some row\<close> show ?thesis by (simp add: loginUser_def)
      qed
    qed
  qed
  from body named show ?thesis by blast
qed

text \<open>
  A failure of the store that the client reports in \<open>error\<close> is answered as
  \<open>User not found\<close>, not as an error of another kind.
\<close>

theorem loginUser_outcomes_counterexample:
  "loginUser (Fulfilled (Some \<lparr>code = ''57014'', message = ''canceling statement due to statement timeout''\<rparr>) None)
     ''ann'' ''secret'' =
     \<lparr>success = False, token = None, error = Some ''User not found''\<rparr> \<and>
   outcomeOf (loginUser (Fulfilled (Some \<lparr>code = ''57014'', message = ''canceling statement due to statement timeout''\<rparr>) None)
     ''ann'' ''secret'') = NotFound \<and>
   outcomeOf (loginUser (Fulfilled (Some \<lparr>code = ''57014'', message = ''canceling statement due to statement timeout''\<rparr>) None)
     ''ann'' ''secret'') \<noteq> OtherError"
  by (simp add: loginUser_def outcomeOf_def)

theorem loginUser_outcomes_witness:
  "loginUser (Fulfilled None (Some \<lparr>password = ''secret''\<rparr>)) ''ann'' ''secret'' =
     \<lparr>success = True, token = Some \<lparr>username = ''ann''\<rparr>, error = None\<rparr> \<and>
   loginUser (Fulfilled None (Some \<lparr>password = ''secret''\<rparr>)) ''ann'' ''guess'' =
     \<lparr>success = False, token = None, error = Some ''Incorrect password''\<rparr> \<and>
   loginUser (Fulfilled (Some \<lparr>code = ''PGRST116'', message = ''no rows''\<rparr>) None) ''bob'' ''secret'' =
     \<lparr>success = False, token = None, error = Some ''User not found''\<rparr> \<and>
   loginUser (Rejected ''Failed to fetch'') ''ann'' ''secret'' =
     \<lparr>success = False, token = None, error = Some ''Failed to fetch''\<rparr>"
proof -
  note first = loginUser_outcomes
    [of "Fulfilled None (Some \<lparr>password = ''secret''\<rparr>)" "''ann''" "''secret''"]
  have one: "loginUser (Fulfilled None (Some \<lparr>password = ''secret''\<rparr>)) ''ann'' ''secret'' =
     \<lparr>success = True, token = Some \<lparr>username = ''ann''\<rparr>, error = None\<rparr>"
    by (rule first [THEN conjunct2, THEN conjunct1, THEN mp])
       (simp add: first [THEN conjunct1])
  note second = loginUser_outcomes
    [of "Fulfilled None (Some \<lparr>password = ''secret''\<rparr>)" "''ann''" "''guess''"]
  have two: "loginUser (Fulfilled None (Some \<lparr>password = ''secret''\<rparr>)) ''ann'' ''guess'' =
     \<lparr>success = False, token = None, error = Some ''Incorrect password''\<rparr>"
    by (rule second [THEN conjunct2, THEN conjunct2, THEN conjunct1, THEN mp]) simp
  note third = loginUser_outcomes
    [of "Fulfilled (Some \<lparr>code = ''PGRST116'', message = ''no rows''\<rparr>) None" "''bob''" "''secret''"]
  have three: "loginUser (Fulfilled (Some \<lparr>code = ''PGRST116'', message = ''no rows''\<rparr>) None) ''bob'' ''secret'' =
     \<lparr>success = False, token = None, error = Some ''User not found''\<rparr>"
    by (rule third [THEN conjunct2, THEN conjunct2, THEN conjunct2, THEN conjunct1, THEN mp]) simp
  note fourth = loginUser_outcomes [of "Rejected ''Failed to fetch''" "''ann''" "''secret''"]
  have four: "loginUser (Rejected ''Failed to fetch'') ''ann'' ''secret'' =
     \<lparr>success = False, token = None, error = Some ''Failed to fetch''\<rparr>"
    by (rule fourth [THEN conjunct2, THEN conjunct2, THEN conjunct2, THEN conjunct2,
          THEN conjunct1, THEN spec, THEN mp]) simp
  show ?thesis
    by (rule conjI [OF one conjI [OF two conjI [OF three four]]])
qed

section \<open>Runs\<close>

lemma moveSnake_effect:
  assumes "moveSnake rnd s = Returns s'"
  shows "length (snake s') = length (snake s) + (if eats s then 1 else 0)"
    and "score s' = score s + (if eats s then 10 else 0)"
    and "speed s' = (if eats s then max 50 (speed s - 2) else speed s)"
    and "\<not> eats s \<Longrightarrow> \<not> isPaused s \<Longrightarrow> \<not> isGameOver s \<Longrightarrow> inGrid (newHeadOf s) \<Longrightarrow>
         newHeadOf s \<notin> set (snake s) \<Longrightarrow> snake s' = butlast (newHeadOf s # snake s)"
proof -
  consider (stopped) "isPaused s \<or> isGameOver s"
    | (headless) "\<not> isPaused s" "\<not> isGameOver s" "snake s = []"
    | (crash) "\<not> isPaused s" "\<not> isGameOver s" "snake s \<noteq> []"
        "\<not> inGrid (newHeadOf s) \<or> newHeadOf s \<in> set (snake s)"
    | (food) "eats s"
    | (move) "\<not> isPaused s" "\<not> isGameOver s" "snake s \<noteq> []"
        "\<not> (\<not> inGrid (newHeadOf s) \<or> newHeadOf s \<in> set (snake s))" "newHeadOf s \<noteq> food s"
    unfolding eats_def by blast
  then have "(length (snake s') = length (snake s) + (if eats s then 1 else 0)) \<and>
      (score s' = score s + (if eats s then 10 else 0)) \<and>
      (speed s' = (if eats s then max 50 (speed s - 2) else speed s)) \<and>
      (\<not> eats s \<longrightarrow> \<not> isPaused s \<longrightarrow> \<not> isGameOver s \<longrightarrow> inGrid (newHeadOf s) \<longrightarrow>
         newHeadOf s \<notin> set (snake s) \<longrightarrow> snake s' = butlast (newHeadOf s # snake s))"
  proof cases
    case stopped
    then have "\<not> eats s" by (auto simp: eats_def)
    moreover from stopped assms have "s' = s" by (simp add: moveSnake_def)
    ultimately show ?thesis using stopped by auto
  next
    case headless
    with assms show ?thesis by (simp add: moveSnake_def)
  next
    case crash
    then have "\<not> eats s" by (auto simp: eats_def)
    moreover from crash assms have "s' = gameOverNow s"
      by (simp add: moveSnake_running)
    ultimately show ?thesis using crash(4) by (auto simp: gameOverNow_def)
  next
    case food
    from assms obtain f d where "s' = s\<lparr>score := score s + 10, speed := max 50 (speed s - 2),
        food := f, draws := d, snake := newHeadOf s # snake s\<rparr>"
      unfolding moveSnake_eating [OF food] by (auto split: option.splits)
    with food show ?thesis by simp
  next
    case move
    then have "\<not> eats s" by (simp add: eats_def)
    moreover from assms have "s' = s\<lparr>snake := butlast (newHeadOf s # snake s)\<rparr>"
      unfolding moveSnake_running [OF move(1-3)]
      by (simp only: if_not_P [OF move(4)] if_not_P [OF move(5)] outcome.inject)
    ultimately show ?thesis using move(3) by simp
  qed
  then show "length (snake s') = length (snake s) + (if eats s then 1 else 0)"
    and "score s' = score s + (if eats s then 10 else 0)"
    and "speed s' = (if eats s then max 50 (speed s - 2) else speed s)"
    and "\<not> eats s \<Longrightarrow> \<not> isPaused s \<Longrightarrow> \<not> isGameOver s \<Longrightarrow> inGrid (newHeadOf s) \<Longrightarrow>
         newHeadOf s \<notin> set (snake s) \<Longrightarrow> snake s' = butlast (newHeadOf s # snake s)"
    by blast+
qed


lemma loop_Returns:
  assumes "loop rnd t s = Returns s'"
  shows "if t - lastUpdateTime s > of_int (speed s)
         then \<exists>u. moveSnake rnd s = Returns u \<and> s' = u\<lparr>lastUpdateTime := t\<rparr>
         else s' = s"
  using assms by (auto simp: loop_def split: if_splits outcome.splits)

text \<open>
  An event that is not a reset: its handler gives a state \<open>u\<close>, which the render then takes
  up. When the event fires a tick, \<open>u\<close> is the result \<open>v\<close> of \<^verbatim>\<open>moveSnake\<close> but for the time
  stamp; otherwise \<open>u\<close> has the snake, score, speed, food and closure of the state before.
\<close>

lemma step_shape:
  assumes "step rnd e s = Returns s'" "\<not> resets e"
  shows "\<exists>u v. s' = rerender s u \<and>
           (if firesTick e s then moveSnake rnd s = Returns v else v = s) \<and>
           snake u = snake v \<and> score u = score v \<and> speed u = speed v \<and> food u = food v \<and>
           capturedUser u = capturedUser v \<and> capturedScore u = capturedScore v"
proof (cases e)
  case Tick
  with assms(1) obtain v where "moveSnake rnd s = Returns v" "s' = rerender s v"
    by (auto simp: mapOutcome_Returns)
  with Tick show ?thesis by auto
next
  case (Frame t)
  from assms(1) Frame obtain w where w: "loop rnd t s = Returns w" "s' = rerender s w"
    by (auto simp: mapOutcome_Returns)
  show ?thesis
  proof (cases "t - lastUpdateTime s > of_int (speed s)")
    case True
    with loop_Returns [OF w(1)] obtain v where
      v: "moveSnake rnd s = Returns v" "w = v\<lparr>lastUpdateTime := t\<rparr>"
      by auto
    have "(if firesTick e s then moveSnake rnd s = Returns v else v = s) \<and>
           snake w = snake v \<and> score w = score v \<and> speed w = speed v \<and> food w = food v \<and>
           capturedUser w = capturedUser v \<and> capturedScore w = capturedScore v"
      using True Frame v by simp
    with w(2) show ?thesis by blast
  next
    case False
    with loop_Returns [OF w(1)] have "w = s" by simp
    with False Frame w(2) show ?thesis by (auto intro!: exI [of _ s])
  qed
next
  case (KeyDown key)
  have "snake (handleKeyDown key s) = snake s \<and> score (handleKeyDown key s) = score s \<and>
      speed (handleKeyDown key s) = speed s \<and> food (handleKeyDown key s) = food s \<and>
      capturedUser (handleKeyDown key s) = capturedUser s \<and>
      capturedScore (handleKeyDown key s) = capturedScore s"
    by (simp add: handleKeyDown_def)
  with assms(1) KeyDown show ?thesis by auto
next
  case ClickUp
  with assms(1) show ?thesis by (auto simp: onClickUp_def intro!: exI [of _ "onClickUp s"])
next
  case ClickLeft
  with assms(1) show ?thesis by (auto simp: onClickLeft_def intro!: exI [of _ "onClickLeft s"])
next
  case ClickDown
  with assms(1) show ?thesis by (auto simp: onClickDown_def intro!: exI [of _ "onClickDown s"])
next
  case ClickRight
  with assms(1) show ?thesis by (auto simp: onClickRight_def intro!: exI [of _ "onClickRight s"])
next
  case ClickPause
  with assms(1) show ?thesis by (auto simp: onClickPause_def intro!: exI [of _ "onClickPause s"])
next
  case ClickPlay
  with assms(1) show ?thesis by (auto simp: onClickPlay_def intro!: exI [of _ "onClickPlay s"])
next
  case ClickTryAgain
  with assms(2) show ?thesis by simp
next
  case (Login w)
  with assms(1) show ?thesis by (auto intro!: exI [of _ "s\<lparr>currentUser := Some w\<rparr>"])
next
  case ClickLogout
  with assms(2) show ?thesis by simp
qed

lemma step_effect:
  assumes "step rnd e s = Returns s'" "\<not> resets e"
  shows "length (snake s') = length (snake s) + (if firesTick e s \<and> eats s then 1 else 0)"
    and "score s' = score s + (if firesTick e s \<and> eats s then 10 else 0)"
    and "speed s' = (if firesTick e s \<and> eats s then max 50 (speed s - 2) else speed s)"
proof -
  from step_shape [OF assms] obtain u v where uv: "s' = rerender s u"
    "if firesTick e s then moveSnake rnd s = Returns v else v = s"
    "snake u = snake v" "score u = score v" "speed u = speed v"
    by blast
  have "(length (snake s') = length (snake s) + (if firesTick e s \<and> eats s then 1 else 0)) \<and>
        (score s' = score s + (if firesTick e s \<and> eats s then 10 else 0)) \<and>
        (speed s' = (if firesTick e s \<and> eats s then max 50 (speed s - 2) else speed s))"
  proof (cases "firesTick e s")
    case True
    with uv(2) have "moveSnake rnd s = Returns v" by simp
    from moveSnake_effect(1-3) [OF this] uv(1,3-5) True show ?thesis by simp
  next
    case False
    with uv show ?thesis by simp
  qed
  then show "length (snake s') = length (snake s) + (if firesTick e s \<and> eats s then 1 else 0)"
    and "score s' = score s + (if firesTick e s \<and> eats s then 10 else 0)"
    and "speed s' = (if firesTick e s \<and> eats s then max 50 (speed s - 2) else speed s)"
    by blast+
qed

lemma run_Cons_Returns:
  assumes "run rnd (e # es) s = Returns s'"
  obtains u where "step rnd e s = Returns u" "run rnd es u = Returns s'"
  using assms by (cases "step rnd e s") simp_all

lemma run_length_aux:
  "run rnd es s = Returns s' \<Longrightarrow> \<not> list_ex resets es \<Longrightarrow>
   length (snake s') = length (snake s) + pickups rnd es s"
proof (induction es arbitrary: s)
  case Nil
  then show ?case by simp
next
  case (Cons e es)
  from Cons.prems(1) obtain u where u: "step rnd e s = Returns u" "run rnd es u = Returns s'"
    by (rule run_Cons_Returns)
  from Cons.prems(2) have nr: "\<not> resets e" "\<not> list_ex resets es" by simp_all
  from Cons.IH [OF u(2) nr(2)] step_effect(1) [OF u(1) nr(1)] u(1)
  show ?case by simp
qed

text \<open>With a fair sequence, a tick returns unless the snake is headless or the board fills up.\<close>

lemma moveSnake_total:
  assumes "fair rnd" "snake s \<noteq> []" "eats s \<Longrightarrow> length (snake s) + 1 < 400"
  shows "\<exists>u. moveSnake rnd s = Returns u"
proof (cases "eats s")
  case True
  have "card (Collect inGrid \<inter> set (newHeadOf s # snake s)) \<le> length (newHeadOf s # snake s)"
    by (rule occupied_le_length)
  with assms(3) [OF True] have "card (Collect inGrid \<inter> set (newHeadOf s # snake s)) < 400"
    by simp
  from generateFood_fair [OF assms(1) this, of "draws s"] show ?thesis
    unfolding moveSnake_eating [OF True] by auto
next
  case False
  show ?thesis
  proof (cases "isPaused s \<or> isGameOver s")
    case True
    then show ?thesis by (simp add: moveSnake_def)
  next
    case stopped: False
    then have running: "\<not> isPaused s" "\<not> isGameOver s" by simp_all
    show ?thesis
    proof (cases "\<not> inGrid (newHeadOf s) \<or> newHeadOf s \<in> set (snake s)")
      case True
      show ?thesis
        unfolding moveSnake_running [OF running assms(2)]
        by (simp only: if_P [OF True]) blast
    next
      case clear: False
      with False running assms(2) have "newHeadOf s \<noteq> food s"
        unfolding eats_def by blast
      show ?thesis
        unfolding moveSnake_running [OF running assms(2)]
        by (simp only: if_not_P [OF clear] if_not_P [OF \<open>newHeadOf s \<noteq> food s\<close>]) blast
    qed
  qed
qed

lemma step_total:
  assumes "fair rnd" "snake s \<noteq> []" "\<not> resets e"
    "firesTick e s \<and> eats s \<Longrightarrow> length (snake s) + 1 < 400"
  shows "\<exists>u. step rnd e s = Returns u"
proof (cases e)
  case Tick
  with assms(4) have "eats s \<Longrightarrow> length (snake s) + 1 < 400" by simp
  from moveSnake_total [OF assms(1,2) this] Tick show ?thesis by auto
next
  case (Frame t)
  show ?thesis
  proof (cases "t - lastUpdateTime s > of_int (speed s)")
    case True
    with assms(4) Frame have "eats s \<Longrightarrow> length (snake s) + 1 < 400" by simp
    from moveSnake_total [OF assms(1,2) this] True Frame show ?thesis
      by (auto simp: loop_def)
  next
    case False
    with Frame show ?thesis by (simp add: loop_def)
  qed
qed (use assms(3) in simp_all)

lemma run_total:
  "fair rnd \<Longrightarrow> snake s \<noteq> [] \<Longrightarrow> \<not> list_ex resets es \<Longrightarrow>
   length (snake s) + pickups rnd es s < 400 \<Longrightarrow> \<exists>s'. run rnd es s = Returns s'"
proof (induction es arbitrary: s)
  case Nil
  then show ?case by simp
next
  case (Cons e es)
  from Cons.prems(3) have nr: "\<not> resets e" "\<not> list_ex resets es" by simp_all
  have "length (snake s) + 1 < 400" if "firesTick e s \<and> eats s"
    using that Cons.prems(4) by simp
  from step_total [OF Cons.prems(1,2) nr(1) this] obtain u where u: "step rnd e s = Returns u"
    by blast
  from step_effect(1) [OF u nr(1)]
  have len: "length (snake u) = length (snake s) + (if firesTick e s \<and> eats s then 1 else 0)" .
  with Cons.prems(2) have "snake u \<noteq> []" by auto
  moreover from len Cons.prems(4) u have "length (snake u) + pickups rnd es u < 400"
    by simp
  ultimately obtain s' where "run rnd es u = Returns s'"
    using Cons.IH [OF Cons.prems(1) _ nr(2)] by blast
  with u show ?case by simp
qed

lemma floor_cyc_20:
  "\<lfloor>cyc i * 20\<rfloor> = int (if even i then (i div 2) mod 20 else (i div 40) mod 20)"
  using floor_cyc [of i] by (simp add: GRID_SIZE_def)

text \<open>
  C6. Take a run of ticks, with inputs and frames in between but without a reset. If it
  returns, the length of the snake is its length at the start plus the number of ticks
  that consumed food, whether or not a collision ended the game on the way. It does return,
  with a fair sequence of random numbers and a snake that has a head, when that sum stays
  below the 400 cells of the board. A tick that does not consume food returns and leaves
  the length as it is: when it moves the snake, it puts the new head in front and removes
  the last element.
\<close>

theorem run_length:
  "\<not> list_ex resets es \<Longrightarrow>
   (\<forall>s'. run rnd es s = Returns s' \<longrightarrow>
      length (snake s') = length (snake s) + pickups rnd es s) \<and>
   (fair rnd \<and> snake s \<noteq> [] \<and> length (snake s) + pickups rnd es s < 400 \<longrightarrow>
      (\<exists>s'. run rnd es s = Returns s' \<and>
         length (snake s') = length (snake s) + pickups rnd es s)) \<and>
   (\<not> eats s \<and> snake s \<noteq> [] \<longrightarrow>
      (\<exists>t. moveSnake rnd s = Returns t \<and> length (snake t) = length (snake s) \<and>
         (\<not> isPaused s \<and> \<not> isGameOver s \<and> inGrid (newHeadOf s) \<and> newHeadOf s \<notin> set (snake s) \<longrightarrow>
            snake t = butlast (newHeadOf s # snake s))))"
proof -
  assume nr: "\<not> list_ex resets es"
  have part: "\<forall>s'. run rnd es s = Returns s' \<longrightarrow>
      length (snake s') = length (snake s) + pickups rnd es s"
    using run_length_aux [OF _ nr] by blast
  have total: "\<exists>s'. run rnd es s = Returns s' \<and>
         length (snake s') = length (snake s) + pickups rnd es s"
    if "fair rnd \<and> snake s \<noteq> [] \<and> length (snake s) + pickups rnd es s < 400"
  proof -
    from that run_total [of rnd s es] nr obtain s' where "run rnd es s = Returns s'"
      by blast
    with part show ?thesis by blast
  qed
  have still: "\<exists>t. moveSnake rnd s = Returns t \<and> length (snake t) = length (snake s) \<and>
         (\<not> isPaused s \<and> \<not> isGameOver s \<and> inGrid (newHeadOf s) \<and> newHeadOf s \<notin> set (snake s) \<longrightarrow>
            snake t = butlast (newHeadOf s # snake s))"
    if "\<not> eats s \<and> snake s \<noteq> []"
  proof -
    from that have ne: "\<not> eats s" "snake s \<noteq> []" by simp_all
    have "\<exists>t. moveSnake rnd s = Returns t"
    proof (cases "isPaused s \<or> isGameOver s")
      case True
      then show ?thesis by (simp add: moveSnake_def)
    next
      case False
      then have running: "\<not> isPaused s" "\<not> isGameOver s" by simp_all
      show ?thesis
      proof (cases "\<not> inGrid (newHeadOf s) \<or> newHeadOf s \<in> set (snake s)")
        case True
        show ?thesis
          unfolding moveSnake_running [OF running ne(2)]
          by (simp only: if_P [OF True]) blast
      next
        case clear: False
        with ne running have "newHeadOf s \<noteq> food s"
          unfolding eats_def by blast
        show ?thesis
          unfolding moveSnake_running [OF running ne(2)]
          by (simp only: if_not_P [OF clear] if_not_P [OF \<open>newHeadOf s \<noteq> food s\<close>]) blast
      qed
    qed
    then obtain t where t: "moveSnake rnd s = Returns t" by blast
    from moveSnake_effect(1,4) [OF t] ne(1) t show ?thesis by auto
  qed
  from part total still show ?thesis by blast
qed

text \<open>
  A run that eats once, turns left and moves twice, and a tick of a game whose food is out
  of the way.
\<close>

theorem run_length_witness:
  "\<not> list_ex resets [Tick, KeyDown ''ArrowLeft'', Tick, Frame 200] \<and>
   fair cyc \<and>
   snake (playing (Some ann) INITIAL_SNAKE \<lparr>x = 10, y = 9\<rparr> INITIAL_DIRECTION) \<noteq> [] \<and>
   run cyc [Tick, KeyDown ''ArrowLeft'', Tick, Frame 200]
     (playing (Some ann) INITIAL_SNAKE \<lparr>x = 10, y = 9\<rparr> INITIAL_DIRECTION) =
     Returns ((playing (Some ann) INITIAL_SNAKE \<lparr>x = 10, y = 9\<rparr> INITIAL_DIRECTION)
       \<lparr>snake := [\<lparr>x = 8, y = 9\<rparr>, \<lparr>x = 9, y = 9\<rparr>, \<lparr>x = 10, y = 9\<rparr>, \<lparr>x = 10, y = 10\<rparr>],
        food := \<lparr>x = 0, y = 0\<rparr>, direction := \<lparr>x = - 1, y = 0\<rparr>, score := 10, speed := 148,
        lastUpdateTime := 200, draws := 2, capturedScore := 10\<rparr>) \<and>
   pickups cyc [Tick, KeyDown ''ArrowLeft'', Tick, Frame 200]
     (playing (Some ann) INITIAL_SNAKE \<lparr>x = 10, y = 9\<rparr> INITIAL_DIRECTION) = 1 \<and>
   (\<exists>s'. run cyc [Tick, KeyDown ''ArrowLeft'', Tick, Frame 200]
       (playing (Some ann) INITIAL_SNAKE \<lparr>x = 10, y = 9\<rparr> INITIAL_DIRECTION) = Returns s' \<and>
     length (snake s') = length INITIAL_SNAKE + 1) \<and>
   \<not> eats (playing (Some ann) INITIAL_SNAKE \<lparr>x = 5, y = 5\<rparr> INITIAL_DIRECTION) \<and>
   (\<exists>t. moveSnake cyc (playing (Some ann) INITIAL_SNAKE \<lparr>x = 5, y = 5\<rparr> INITIAL_DIRECTION) = Returns t \<and>
     length (snake t) = length INITIAL_SNAKE \<and>
     snake t = [\<lparr>x = 10, y = 9\<rparr>, \<lparr>x = 10, y = 10\<rparr>, \<lparr>x = 10, y = 11\<rparr>])"
proof -
  let ?s = "playing (Some ann) INITIAL_SNAKE \<lparr>x = 10, y = 9\<rparr> INITIAL_DIRECTION"
  let ?es = "[Tick, KeyDown ''ArrowLeft'', Tick, Frame 200]"
  let ?t = "?s\<lparr>snake := [\<lparr>x = 8, y = 9\<rparr>, \<lparr>x = 9, y = 9\<rparr>, \<lparr>x = 10, y = 9\<rparr>, \<lparr>x = 10, y = 10\<rparr>],
        food := \<lparr>x = 0, y = 0\<rparr>, direction := \<lparr>x = - 1, y = 0\<rparr>, score := 10, speed := 148,
        lastUpdateTime := 200, draws := 2, capturedScore := 10\<rparr>"
  let ?m = "playing (Some ann) INITIAL_SNAKE \<lparr>x = 5, y = 5\<rparr> INITIAL_DIRECTION"
  have r: "run cyc ?es ?s = Returns ?t"
    by (simp add: moveSnake_def loop_def handleKeyDown_def playing_def INITIAL_SNAKE_def
        INITIAL_DIRECTION_def GRID_SIZE_def BASE_SPEED_def SPEED_INCREMENT_def
        generateFood_unfold candidate_def floor_cyc_20 Let_def rerender_def recreate_def)
  have n: "\<not> list_ex resets ?es"
    by simp
  have l: "length (snake ?t) = 4" "length (snake ?s) = 3" "snake ?s \<noteq> []"
    by (simp_all add: playing_def INITIAL_SNAKE_def)
  note first = run_length [OF n, of cyc ?s]
  from first [THEN conjunct1, THEN spec, THEN mp, OF r]
  have "length (snake ?t) = length (snake ?s) + pickups cyc ?es ?s" .
  with l have p: "pickups cyc ?es ?s = 1"
    by linarith
  from l(2) p have small: "length (snake ?s) + pickups cyc ?es ?s < 400"
    by linarith
  have three: "length INITIAL_SNAKE = 3"
    by (simp add: INITIAL_SNAKE_def)
  with l(2) p have sum: "length (snake ?s) + pickups cyc ?es ?s = length INITIAL_SNAKE + 1"
    by linarith
  have "fair cyc \<and> snake ?s \<noteq> [] \<and> length (snake ?s) + pickups cyc ?es ?s < 400"
    by (intro conjI fair_cyc l(3) small)
  from first [THEN conjunct2, THEN conjunct1, THEN mp, OF this]
  have total: "\<exists>s'. run cyc ?es ?s = Returns s' \<and> length (snake s') = length INITIAL_SNAKE + 1"
    unfolding sum .
  have front: "newHeadOf ?m = \<lparr>x = 10, y = 9\<rparr>"
    by (simp add: newHeadOf_def playing_def INITIAL_SNAKE_def INITIAL_DIRECTION_def)
  have m: "\<not> isPaused ?m" "\<not> isGameOver ?m" "snake ?m = INITIAL_SNAKE" "food ?m = \<lparr>x = 5, y = 5\<rparr>"
    by (simp_all add: playing_def)
  have hungry: "\<not> eats ?m"
    by (simp add: eats_def front m)
  have onBoard: "inGrid (newHeadOf ?m)"
    unfolding front by (simp add: inGrid_def GRID_SIZE_def)
  have off: "newHeadOf ?m \<notin> set (snake ?m)"
    unfolding front m(3) by (simp add: INITIAL_SNAKE_def)
  have clear: "\<not> isPaused ?m \<and> \<not> isGameOver ?m \<and> inGrid (newHeadOf ?m) \<and> newHeadOf ?m \<notin> set (snake ?m)"
    by (intro conjI m(1,2) onBoard off)
  have headed: "snake ?m \<noteq> []"
    unfolding m(3) by (simp add: INITIAL_SNAKE_def)
  have "\<not> eats ?m \<and> snake ?m \<noteq> []"
    by (intro conjI hungry headed)
  from run_length [of "[]" cyc ?m, THEN conjunct2, THEN conjunct2, THEN mp, OF _ this]
  obtain t where t: "moveSnake cyc ?m = Returns t" "length (snake t) = length (snake ?m)"
    "\<not> isPaused ?m \<and> \<not> isGameOver ?m \<and> inGrid (newHeadOf ?m) \<and> newHeadOf ?m \<notin> set (snake ?m) \<longrightarrow>
       snake t = butlast (newHeadOf ?m # snake ?m)"
    by auto
  from t(3) clear have "snake t = butlast (newHeadOf ?m # snake ?m)" by (rule mp)
  moreover have "butlast (newHeadOf ?m # snake ?m) = [\<lparr>x = 10, y = 9\<rparr>, \<lparr>x = 10, y = 10\<rparr>, \<lparr>x = 10, y = 11\<rparr>]"
    unfolding front m(3) by (simp add: INITIAL_SNAKE_def)
  ultimately have moved: "snake t = [\<lparr>x = 10, y = 9\<rparr>, \<lparr>x = 10, y = 10\<rparr>, \<lparr>x = 10, y = 11\<rparr>]"
    by (rule trans)
  from t(2) have same: "length (snake t) = length INITIAL_SNAKE"
    unfolding m(3) .
  from t(1) same moved have still: "\<exists>t. moveSnake cyc ?m = Returns t \<and>
     length (snake t) = length INITIAL_SNAKE \<and>
     snake t = [\<lparr>x = 10, y = 9\<rparr>, \<lparr>x = 10, y = 10\<rparr>, \<lparr>x = 10, y = 11\<rparr>]"
    by (intro exI [of _ t] conjI)
  from n fair_cyc l(3) r p total hungry still show ?thesis
    by (intro conjI)
qed

lemma scored_step:
  assumes "scored s" "step rnd e s = Returns s'"
  shows "scored s'"
proof (cases "resets e")
  case False
  from step_effect [OF assms(2) False] assms(1) show ?thesis
    by (auto simp: scored_def)
next
  case True
  then obtain r where "resetGame rnd s = Returns r \<or> resetGame rnd (s\<lparr>currentUser := None\<rparr>) = Returns r"
    and s': "s' = recreate r"
    using assms(2) by (cases e) (auto simp: onClickLogout_def mapOutcome_Returns)
  then have "scored r"
    by (auto simp: resetGame_def scored_def INITIAL_SNAKE_def BASE_SPEED_def split: option.splits)
  with s' show ?thesis by (simp add: scored_def)
qed

lemma scored_run: "scored s \<Longrightarrow> run rnd es s = Returns s' \<Longrightarrow> scored s'"
proof (induction es arbitrary: s)
  case Nil
  then show ?case by simp
next
  case (Cons e es)
  from Cons.prems(2) obtain u where u: "step rnd e s = Returns u" "run rnd es u = Returns s'"
    by (rule run_Cons_Returns)
  from Cons.IH [OF scored_step [OF Cons.prems(1) u(1)] u(2)] show ?case .
qed

text \<open>
  C10. In every state that a run of ticks, frames, inputs and resets reaches from the
  result of \<^verbatim>\<open>resetGame\<close>, the game over or not, the score is \<open>10 * (length - 3)\<close> and the
  speed is \<open>max 50 (150 - 2 * (length - 3))\<close>; so the score is a non-negative multiple of 10
  and the speed lies between 50 and 150.
\<close>

theorem score_speed_invariant:
  "resetGame rnd s0 = Returns s1 \<Longrightarrow> run rnd es s1 = Returns s \<Longrightarrow>
   score s = 10 * (int (length (snake s)) - 3) \<and>
   speed s = max 50 (150 - 2 * (int (length (snake s)) - 3)) \<and>
   0 \<le> score s \<and> 10 dvd score s \<and> 50 \<le> speed s \<and> speed s \<le> 150"
proof -
  assume r: "resetGame rnd s0 = Returns s1" and run: "run rnd es s1 = Returns s"
  from r have "scored s1"
    by (auto simp: resetGame_def scored_def INITIAL_SNAKE_def BASE_SPEED_def split: option.splits)
  from scored_run [OF this run] have "scored s" .
  then show ?thesis by (auto simp: scored_def)
qed

theorem score_speed_invariant_witness:
  "resetGame cyc (initialState\<lparr>draws := 380\<rparr>) =
     Returns (initialState\<lparr>isPaused := False, food := \<lparr>x = 10, y = 9\<rparr>, draws := 382\<rparr>) \<and>
   run cyc [Tick] (initialState\<lparr>isPaused := False, food := \<lparr>x = 10, y = 9\<rparr>, draws := 382\<rparr>) =
     Returns (initialState\<lparr>isPaused := False, food := \<lparr>x = 11, y = 9\<rparr>, draws := 384,
       snake := [\<lparr>x = 10, y = 9\<rparr>, \<lparr>x = 10, y = 10\<rparr>, \<lparr>x = 10, y = 11\<rparr>, \<lparr>x = 10, y = 12\<rparr>],
       score := 10, speed := 148, capturedScore := 10\<rparr>) \<and>
   (10::int) = 10 * (int (length [\<lparr>x = 10, y = 9\<rparr>, \<lparr>x = 10, y = 10\<rparr>, \<lparr>x = 10, y = 11\<rparr>, \<lparr>x = 10, y = 12\<rparr> :: Point]) - 3) \<and>
   (148::int) = max 50 (150 - 2 * (int (length [\<lparr>x = 10, y = 9\<rparr>, \<lparr>x = 10, y = 10\<rparr>, \<lparr>x = 10, y = 11\<rparr>, \<lparr>x = 10, y = 12\<rparr> :: Point]) - 3))"
proof -
  let ?s1 = "initialState\<lparr>isPaused := False, food := \<lparr>x = 10, y = 9\<rparr>, draws := 382\<rparr>"
  let ?s2 = "initialState\<lparr>isPaused := False, food := \<lparr>x = 11, y = 9\<rparr>, draws := 384,
       snake := [\<lparr>x = 10, y = 9\<rparr>, \<lparr>x = 10, y = 10\<rparr>, \<lparr>x = 10, y = 11\<rparr>, \<lparr>x = 10, y = 12\<rparr>],
       score := 10, speed := 148, capturedScore := 10\<rparr>"
  have c: "candidate cyc 380 = \<lparr>x = 10, y = 9\<rparr>" "candidate cyc 382 = \<lparr>x = 11, y = 9\<rparr>"
    by (simp_all add: candidate_def floor_cyc)
  have g: "generateFood cyc 380 INITIAL_SNAKE = Some (\<lparr>x = 10, y = 9\<rparr>, 382)"
    by (subst generateFood_unfold) (simp add: c INITIAL_SNAKE_def)
  have h: "generateFood cyc 382 [\<lparr>x = 10, y = 9\<rparr>, \<lparr>x = 10, y = 10\<rparr>, \<lparr>x = 10, y = 11\<rparr>, \<lparr>x = 10, y = 12\<rparr>] =
      Some (\<lparr>x = 11, y = 9\<rparr>, 384)"
    by (subst generateFood_unfold) (simp add: c)
  have r: "resetGame cyc (initialState\<lparr>draws := 380\<rparr>) = Returns ?s1"
    by (simp add: resetGame_def g) (simp add: initialState_def)
  have t: "run cyc [Tick] ?s1 = Returns ?s2"
    by (simp add: moveSnake_def initialState_def INITIAL_SNAKE_def INITIAL_DIRECTION_def
        GRID_SIZE_def BASE_SPEED_def SPEED_INCREMENT_def h Let_def rerender_def recreate_def)
  have f: "score ?s2 = 10" "speed ?s2 = 148"
    "snake ?s2 = [\<lparr>x = 10, y = 9\<rparr>, \<lparr>x = 10, y = 10\<rparr>, \<lparr>x = 10, y = 11\<rparr>, \<lparr>x = 10, y = 12\<rparr>]"
    by simp_all
  note inv = score_speed_invariant [OF r t]
  have
    "score ?s2 = 10 * (int (length (snake ?s2)) - 3)"
    "speed ?s2 = max 50 (150 - 2 * (int (length (snake ?s2)) - 3))"
    by (rule inv [THEN conjunct1], rule inv [THEN conjunct2, THEN conjunct1])
  then have
    "(10::int) = 10 * (int (length [\<lparr>x = 10, y = 9\<rparr>, \<lparr>x = 10, y = 10\<rparr>, \<lparr>x = 10, y = 11\<rparr>, \<lparr>x = 10, y = 12\<rparr> :: Point]) - 3)"
    "(148::int) = max 50 (150 - 2 * (int (length [\<lparr>x = 10, y = 9\<rparr>, \<lparr>x = 10, y = 10\<rparr>, \<lparr>x = 10, y = 11\<rparr>, \<lparr>x = 10, y = 12\<rparr> :: Point]) - 3))"
    unfolding f by this+
  with r t show ?thesis by (intro conjI)
qed

section \<open>The wall\<close>






end
